theory Spec2Isabelle
  imports Complex_Main "HOL-Library.AList"
begin

section \<open>The micro/macro visualisation routine of \<^verbatim>\<open>utils/visualization_networkx.py\<close>\<close>

text \<open>
  The file holds one routine, \<^verbatim>\<open>visualize_micro_macro\<close>. It is embedded here step by
  step: every Python exception is a value of \<open>error\<close>, every dictionary an association
  list in insertion order (Python dictionaries iterate in insertion order and assigning to
  a present key keeps its place), every loop a recursive function over the iterated list.
  Numbers are exact reals; the rounding of floating point is modelled apart, for the
  rescaler, by \<open>rescale_weight_double\<close>.
\<close>

subsection \<open>Exceptions and dictionaries\<close>

datatype error =
    NameError string
  | KeyError
  | IndexError
  | TypeError
  | ValueError
  | ZeroDivisionError

definition and_then :: "error + 'a \<Rightarrow> ('a \<Rightarrow> error + 'b) \<Rightarrow> error + 'b" where
  "and_then m f = (case m of Inl e \<Rightarrow> Inl e | Inr x \<Rightarrow> f x)"

type_synonym ('k, 'v) dict = "('k \<times> 'v) list"

text \<open>\<^verbatim>\<open>d[k]\<close> read: a missing key raises KeyError.\<close>

definition dict_get :: "('k, 'v) dict \<Rightarrow> 'k \<Rightarrow> error + 'v" where
  "dict_get d k = (case map_of d k of None \<Rightarrow> Inl KeyError | Some v \<Rightarrow> Inr v)"

text \<open>\<^verbatim>\<open>d[k] = v\<close>: a present key keeps its position, a new key goes last.\<close>

definition dict_set :: "('k, 'v) dict \<Rightarrow> 'k \<Rightarrow> 'v \<Rightarrow> ('k, 'v) dict" where
  "dict_set d k v = AList.update k v d"

text \<open>The comprehension \<^verbatim>\<open>[d[k] for k in ks]\<close>.\<close>

fun lookup_all :: "('k, 'v) dict \<Rightarrow> 'k list \<Rightarrow> error + 'v list" where
  "lookup_all d [] = Inr []"
| "lookup_all d (k # ks) =
     and_then (dict_get d k) (\<lambda>v. and_then (lookup_all d ks) (\<lambda>vs. Inr (v # vs)))"

subsection \<open>Graphs, positions, colours, options\<close>

text \<open>
  A networkx graph as the routine reads it: iteration over its nodes, and
  \<^verbatim>\<open>G.edges(data='weight')\<close>, whose third component is \<^verbatim>\<open>None\<close> for an edge that has
  no weight attribute.
\<close>

record 'n graph =
  nodes :: "'n list"
  edges :: "('n \<times> 'n \<times> real option) list"

type_synonym point = "real \<times> real"

text \<open>A value of \<^verbatim>\<open>np.mean(..., axis=0)\<close>: a 2-D point, or nan for an empty list.\<close>

datatype centroid = Centroid real real | NaN

datatype color = Named string | RGBA real real real real

record options =
  min_ns :: real
  max_ns :: real
  min_lw :: real
  max_lw :: real
  ec :: color
  nc :: color
  nec :: color
  all_colorful :: bool
  node_cmap :: string
  method_title :: "string option"

definition default_options :: options where
  "default_options =
     \<lparr> min_ns = 60, max_ns = 300, min_lw = 2, max_lw = 4,
       ec = Named ''.7'', nc = Named ''w'', nec = Named ''steelblue'',
       all_colorful = True, node_cmap = ''Set2'', method_title = None \<rparr>"

text \<open>
  The external collaborators, taken as parameters: the force-directed layout
  \<^verbatim>\<open>nx.spring_layout\<close> (a position for every node of the graph it is given) and the
  registry \<^verbatim>\<open>mpl.colormaps\<close> (a colormap sends a number of [0, 1] to a colour).
\<close>

record 'f library =
  spring_layout :: "'f graph \<Rightarrow> ('f, point) dict"
  colormaps :: "string \<Rightarrow> (real \<Rightarrow> color) option"

text \<open>The drawing calls the routine issues, in order.\<close>

datatype ('f, 'c) draw_call =
    Subplots
  | Suptitle string
  | Draw_micro "'f graph" "('f, point) dict" real "color list" color
  | Draw_micro_edge 'f 'f real color
  | Draw_macro "'c graph" "('c, centroid) dict" "real list" "color list" color
  | Draw_macro_edge 'c 'c real color
  | Set_title nat string
  | Show

subsection \<open>Name resolution (lines 10-15 and 51-53)\<close>

text \<open>
  A free name of the routine's body is looked up in the module's globals, then among the
  builtins; a name bound in neither raises NameError. The objects a global can be bound
  to, as far as the routine is concerned: an imported module, the routine itself, or a
  function building one of the two mapping dictionaries.
\<close>

datatype ('f, 'c) global =
    Module
  | Routine
  | Builtin
  | Forward_builder "('f \<times> 'c) list \<Rightarrow> ('f, 'c) dict"
  | Inverse_builder "('f, 'c) dict \<Rightarrow> ('c, 'f list) dict"

type_synonym ('f, 'c) namespace = "(string \<times> ('f, 'c) global) list"

definition py_builtins :: "string list" where
  "py_builtins =
     [''abs'', ''aiter'', ''all'', ''anext'', ''any'', ''ascii'', ''bin'', ''bool'',
      ''breakpoint'', ''bytearray'', ''bytes'', ''callable'', ''chr'', ''classmethod'',
      ''compile'', ''complex'', ''delattr'', ''dict'', ''dir'', ''divmod'', ''enumerate'',
      ''eval'', ''exec'', ''filter'', ''float'', ''format'', ''frozenset'', ''getattr'',
      ''globals'', ''hasattr'', ''hash'', ''help'', ''hex'', ''id'', ''input'', ''int'',
      ''isinstance'', ''issubclass'', ''iter'', ''len'', ''list'', ''locals'', ''map'',
      ''max'', ''memoryview'', ''min'', ''next'', ''object'', ''oct'', ''open'', ''ord'',
      ''pow'', ''print'', ''property'', ''range'', ''repr'', ''reversed'', ''round'',
      ''set'', ''setattr'', ''slice'', ''sorted'', ''staticmethod'', ''str'', ''sum'',
      ''super'', ''tuple'', ''type'', ''vars'', ''zip'', ''__import__'']"

definition resolve :: "('f, 'c) namespace \<Rightarrow> string \<Rightarrow> error + ('f, 'c) global" where
  "resolve genv name =
     (case map_of genv name of
        Some g \<Rightarrow> Inr g
      | None \<Rightarrow> if name \<in> set py_builtins then Inr Builtin else Inl (NameError name))"

text \<open>
  The globals of the module once it is loaded: lines 10-13 import four modules, line 15
  defines the routine. Nothing else is bound.
\<close>

definition module_globals :: "('f, 'c) namespace" where
  "module_globals =
     [(''plt'', Module), (''np'', Module), (''mpl'', Module), (''nx'', Module),
      (''visualize_micro_macro'', Routine)]"

text \<open>
  Line 51, \<^verbatim>\<open>get_micro2macro_dict_from_pd_df(mapping)\<close>, and line 53,
  \<^verbatim>\<open>get_macro2microlist_dict_from_micro2macro_dict(micro2macro_dict)\<close>: the name is
  resolved, then the object is called; an object of another kind does not take the call.
\<close>

definition call_forward_builder ::
  "('f, 'c) namespace \<Rightarrow> ('f \<times> 'c) list \<Rightarrow> error + ('f, 'c) dict" where
  "call_forward_builder genv mapping =
     and_then (resolve genv ''get_micro2macro_dict_from_pd_df'')
       (\<lambda>g. case g of Forward_builder build \<Rightarrow> Inr (build mapping) | _ \<Rightarrow> Inl TypeError)"

definition call_inverse_builder ::
  "('f, 'c) namespace \<Rightarrow> ('f, 'c) dict \<Rightarrow> error + ('c, 'f list) dict" where
  "call_inverse_builder genv micro2macro_dict =
     and_then (resolve genv ''get_macro2microlist_dict_from_micro2macro_dict'')
       (\<lambda>g. case g of Inverse_builder build \<Rightarrow> Inr (build micro2macro_dict)
                     | _ \<Rightarrow> Inl TypeError)"

subsection \<open>The mapping translator\<close>

text \<open>
  Modelled from the spec: \<^verbatim>\<open>get_micro2macro_dict_from_pd_df\<close>, called at line 51 and
  defined nowhere in the source file. Spec 4.1, operation 1: the forward map
  fine \<open>\<rightarrow>\<close> coarse is built by iterating the rows of the two-column table; a repeated
  fine identifier is not validated (the later row overwrites the earlier one, as
  a dictionary assignment does).
\<close>

definition get_micro2macro_dict_from_pd_df :: "('f \<times> 'c) list \<Rightarrow> ('f, 'c) dict" where
  "get_micro2macro_dict_from_pd_df mapping =
     fold (\<lambda>row d. dict_set d (fst row) (snd row)) mapping []"

text \<open>
  Modelled from the spec: \<^verbatim>\<open>get_macro2microlist_dict_from_micro2macro_dict\<close>, called
  at line 53 and defined nowhere in the source file. Spec 4.1, operation 2: for each
  coarse identifier appearing as a value of the forward map, the fine identifiers that
  map to it are collected, grouped and not sorted, in the iteration order of the forward
  map.
\<close>

definition get_macro2microlist_dict_from_micro2macro_dict ::
  "('f, 'c) dict \<Rightarrow> ('c, 'f list) dict" where
  "get_macro2microlist_dict_from_micro2macro_dict micro2macro_dict =
     fold (\<lambda>item inv.
             dict_set inv (snd item)
               (case map_of inv (snd item) of
                  None \<Rightarrow> [fst item]
                | Some micro_nodes \<Rightarrow> micro_nodes @ [fst item]))
       micro2macro_dict []"

text \<open>The module's globals with the two missing helpers bound to these definitions.\<close>

definition completed_globals :: "('f, 'c) namespace" where
  "completed_globals =
     module_globals @
     [(''get_micro2macro_dict_from_pd_df'',
         Forward_builder get_micro2macro_dict_from_pd_df),
      (''get_macro2microlist_dict_from_micro2macro_dict'',
         Inverse_builder get_macro2microlist_dict_from_micro2macro_dict)]"

subsection \<open>The layout deriver (lines 58-61)\<close>

definition np_mean_axis0 :: "point list \<Rightarrow> centroid" where
  "np_mean_axis0 ps =
     (if ps = [] then NaN
      else Centroid (sum_list (map fst ps) / real (length ps))
                    (sum_list (map snd ps) / real (length ps)))"

fun pos_macro_loop ::
  "('f, point) dict \<Rightarrow> ('c \<times> 'f list) list \<Rightarrow> ('c, centroid) dict \<Rightarrow>
   error + ('c, centroid) dict" where
  "pos_macro_loop pos_micro [] pos_macro = Inr pos_macro"
| "pos_macro_loop pos_micro ((macro_node, micro_nodes) # items) pos_macro =
     and_then (lookup_all pos_micro micro_nodes)
       (\<lambda>ps. pos_macro_loop pos_micro items
                (dict_set pos_macro macro_node (np_mean_axis0 ps)))"

subsection \<open>The colour assigner (lines 63-84)\<close>

text \<open>\<^verbatim>\<open>np.linspace(0, 1, num)\<close>: \<open>num\<close> evenly spaced samples, the single sample being 0.\<close>

definition linspace01 :: "nat \<Rightarrow> real list" where
  "linspace01 num = map (\<lambda>i. if num = 1 then 0 else real i / real (num - 1)) [0..<num]"

text \<open>Lines 66-68: the \<open>i\<close>-th key of \<open>pos_macro\<close> takes \<^verbatim>\<open>macro_colors[i]\<close>.\<close>

fun colorful_loop ::
  "color list \<Rightarrow> 'c list \<Rightarrow> nat \<Rightarrow> ('c, color) dict \<Rightarrow> error + ('c, color) dict" where
  "colorful_loop macro_colors [] i macro_colors_dict = Inr macro_colors_dict"
| "colorful_loop macro_colors (macro_node # ks) i macro_colors_dict =
     (if i < length macro_colors
      then colorful_loop macro_colors ks (Suc i)
             (dict_set macro_colors_dict macro_node (macro_colors ! i))
      else Inl IndexError)"

text \<open>Lines 72-79: only a coarse node of more than one fine node takes the next colour.\<close>

fun selective_loop ::
  "('c, 'f list) dict \<Rightarrow> color list \<Rightarrow> color \<Rightarrow> 'c list \<Rightarrow> nat \<Rightarrow> ('c, color) dict \<Rightarrow>
   error + ('c, color) dict" where
  "selective_loop macro2microlist_dict macro_colors neutral [] index_color macro_colors_dict =
     Inr macro_colors_dict"
| "selective_loop macro2microlist_dict macro_colors neutral (macro_node # ks) index_color
       macro_colors_dict =
     and_then (dict_get macro2microlist_dict macro_node)
       (\<lambda>micro_nodes.
          if length micro_nodes > 1
          then (if index_color < length macro_colors
                then selective_loop macro2microlist_dict macro_colors neutral ks
                       (Suc index_color)
                       (dict_set macro_colors_dict macro_node (macro_colors ! index_color))
                else Inl IndexError)
          else selective_loop macro2microlist_dict macro_colors neutral ks index_color
                 (dict_set macro_colors_dict macro_node neutral))"

definition number_of_big_macro_nodes :: "('c, 'f list) dict \<Rightarrow> nat" where
  "number_of_big_macro_nodes macro2microlist_dict =
     length (filter (\<lambda>micro_nodes. length micro_nodes > 1) (map snd macro2microlist_dict))"

definition assign_macro_colors ::
  "bool \<Rightarrow> (real \<Rightarrow> color) \<Rightarrow> color \<Rightarrow> 'c graph \<Rightarrow> ('c, centroid) dict \<Rightarrow>
   ('c, 'f list) dict \<Rightarrow> error + ('c, color) dict" where
  "assign_macro_colors colorful cmap neutral G_macro pos_macro macro2microlist_dict =
     (if colorful
      then colorful_loop (map cmap (linspace01 (length (nodes G_macro))))
             (map fst pos_macro) 0 []
      else selective_loop macro2microlist_dict
             (map cmap (linspace01 (number_of_big_macro_nodes macro2microlist_dict)))
             neutral (map fst pos_macro) 0 [])"

text \<open>Lines 82-84: a fine node takes the colour of its coarse node.\<close>

fun micro_colors_loop ::
  "('f, 'c) dict \<Rightarrow> ('c, color) dict \<Rightarrow> 'f list \<Rightarrow> ('f, color) dict \<Rightarrow>
   error + ('f, color) dict" where
  "micro_colors_loop micro2macro_dict macro_colors_dict [] micro_colors_dict =
     Inr micro_colors_dict"
| "micro_colors_loop micro2macro_dict macro_colors_dict (micro_node # ks) micro_colors_dict =
     and_then (dict_get micro2macro_dict micro_node)
       (\<lambda>macro_node. and_then (dict_get macro_colors_dict macro_node)
          (\<lambda>c. micro_colors_loop micro2macro_dict macro_colors_dict ks
                 (dict_set micro_colors_dict micro_node c)))"

definition assign_micro_colors ::
  "('f, 'c) dict \<Rightarrow> ('c, color) dict \<Rightarrow> ('f, point) dict \<Rightarrow> error + ('f, color) dict" where
  "assign_micro_colors micro2macro_dict macro_colors_dict pos_micro =
     micro_colors_loop micro2macro_dict macro_colors_dict (map fst pos_micro) []"

text \<open>
  The number of distinct colours other than the neutral one among the colours assigned
  to the coarse nodes (used to state the selective colouring count).
\<close>

definition distinct_non_neutral_colors :: "color \<Rightarrow> ('c, color) dict \<Rightarrow> nat" where
  "distinct_non_neutral_colors neutral macro_colors_dict =
     length (remdups (filter (\<lambda>col. col \<noteq> neutral) (map snd macro_colors_dict)))"

subsection \<open>The size and width rescaler (lines 95-112, 124-136, 146-163)\<close>

text \<open>
  Lines 96-100 and 147-151: the running minimum and maximum of the edge weights, from
  the two sentinels. \<^verbatim>\<open>min(number, None)\<close> raises TypeError.
\<close>

fun weight_scan :: "('n \<times> 'n \<times> real option) list \<Rightarrow> real \<Rightarrow> real \<Rightarrow> error + real \<times> real" where
  "weight_scan [] min_weight max_weight = Inr (min_weight, max_weight)"
| "weight_scan ((u, v, w) # es) min_weight max_weight =
     (case w of
        None \<Rightarrow> Inl TypeError
      | Some x \<Rightarrow> weight_scan es (min min_weight x) (max max_weight x))"

text \<open>
  The three definitions of \<^verbatim>\<open>rescale_weight\<close> have one body; they differ in the defaults
  bound when the definition is executed. Weights and sizes are Python numbers, whose
  division by zero raises ZeroDivisionError.
\<close>

definition rescale_weight :: "real \<Rightarrow> real \<Rightarrow> real \<Rightarrow> real \<Rightarrow> real \<Rightarrow> error + real" where
  "rescale_weight weight min_weight max_weight min_size max_size =
     (if max_size = min_size then Inr min_size
      else if max_weight - min_weight = 0 then Inl ZeroDivisionError
      else Inr (min_size +
                (weight - min_weight) / (max_weight - min_weight) * (max_size - min_size)))"

text \<open>
  Lines 114-120 and 165-171: one width per edge. The scan before the loop has raised
  already on an edge without weight; \<^verbatim>\<open>None - number\<close> is a TypeError as well.
\<close>

fun edge_widths ::
  "('n \<times> 'n \<times> real option) list \<Rightarrow> real \<Rightarrow> real \<Rightarrow> real \<Rightarrow> real \<Rightarrow>
   error + ('n \<times> 'n \<times> real) list" where
  "edge_widths [] min_weight max_weight min_size max_size = Inr []"
| "edge_widths ((u, v, w) # es) min_weight max_weight min_size max_size =
     and_then
       (case w of
          None \<Rightarrow> if max_size = min_size then Inr min_size else Inl TypeError
        | Some x \<Rightarrow> rescale_weight x min_weight max_weight min_size max_size)
       (\<lambda>width. and_then (edge_widths es min_weight max_weight min_size max_size)
          (\<lambda>rest. Inr ((u, v, width) # rest)))"

text \<open>The builtin \<^verbatim>\<open>max\<close> of a list: ValueError on the empty list.\<close>

definition py_max :: "nat list \<Rightarrow> error + nat" where
  "py_max xs = (case xs of [] \<Rightarrow> Inl ValueError | x # rest \<Rightarrow> Inr (fold max rest x))"

text \<open>Line 141: \<^verbatim>\<open>[rescale_weight(len(macro2microlist_dict[node])) for node in G_macro]\<close>.\<close>

fun node_sizes_loop ::
  "('c, 'f list) dict \<Rightarrow> 'c list \<Rightarrow> real \<Rightarrow> real \<Rightarrow> real \<Rightarrow> real \<Rightarrow> error + real list" where
  "node_sizes_loop macro2microlist_dict [] min_weight max_weight min_size max_size = Inr []"
| "node_sizes_loop macro2microlist_dict (node # ns) min_weight max_weight min_size max_size =
     and_then (dict_get macro2microlist_dict node)
       (\<lambda>micro_nodes.
          and_then (rescale_weight (real (length micro_nodes)) min_weight max_weight
                      min_size max_size)
            (\<lambda>s. and_then (node_sizes_loop macro2microlist_dict ns min_weight max_weight
                             min_size max_size)
               (\<lambda>rest. Inr (s # rest))))"

text \<open>
  Lines 124-141: the domain of the node sizes is fixed at 1 below and is the largest
  member count above.
\<close>

definition macro_node_sizes ::
  "('c, 'f list) dict \<Rightarrow> 'c graph \<Rightarrow> real \<Rightarrow> real \<Rightarrow> error + real list" where
  "macro_node_sizes macro2microlist_dict G_macro min_size max_size =
     and_then (py_max (map length (map snd macro2microlist_dict)))
       (\<lambda>max_weight_macro.
          node_sizes_loop macro2microlist_dict (nodes G_macro) 1 (real max_weight_macro)
            min_size max_size)"

subsection \<open>The rescaler in double arithmetic (lines 109-112)\<close>

text \<open>
  Python floats are IEEE 754 doubles: 53 significant bits, each operation rounded to the
  nearest double, a tie to the one with the even last bit. \<open>round_double\<close> rounds a
  real to 53 significant bits: the number is scaled by its unit in the last place to an
  integer of 53 bits, rounded there, and scaled back.
\<close>

definition round_half_even :: "real \<Rightarrow> int" where
  "round_half_even x =
     (if x - of_int \<lfloor>x\<rfloor> < 1 / 2 then \<lfloor>x\<rfloor>
      else if x - of_int \<lfloor>x\<rfloor> > 1 / 2 then \<lfloor>x\<rfloor> + 1
      else if even \<lfloor>x\<rfloor> then \<lfloor>x\<rfloor> else \<lfloor>x\<rfloor> + 1)"

definition double_exponent :: "real \<Rightarrow> int" where
  "double_exponent x = \<lfloor>log 2 \<bar>x\<bar>\<rfloor>"

definition double_ulp :: "real \<Rightarrow> real" where
  "double_ulp x = 2 powr of_int (double_exponent x - 52)"

definition round_double :: "real \<Rightarrow> real" where
  "round_double x =
     (if x = 0 then 0 else of_int (round_half_even (x / double_ulp x)) * double_ulp x)"

text \<open>
  The result of one float operation whose exact value is \<open>v\<close>: the rounded value, as
  long as it is zero or a normal double. A result that would be subnormal, or too large
  for a double, leaves the model: \<open>Out_of_range\<close> says that the model does not follow
  the run any further (on floats it goes on with subnormal, infinite or nan values; on
  ints too large for a double Python raises OverflowError).
\<close>

datatype double_result = Finite real | Out_of_range

definition to_double :: "real \<Rightarrow> double_result" where
  "to_double v =
     (if v = 0 then Finite 0
      else if 2 powr (- 1022) \<le> \<bar>v\<bar> \<and> \<bar>round_double v\<bar> < 2 powr 1024
           then Finite (round_double v)
      else Out_of_range)"

definition is_double :: "real \<Rightarrow> bool" where
  "is_double x \<longleftrightarrow> to_double x = Finite x"

definition with_double ::
  "double_result \<Rightarrow> (real \<Rightarrow> error + double_result) \<Rightarrow> error + double_result" where
  "with_double r f = (case r of Finite v \<Rightarrow> f v | Out_of_range \<Rightarrow> Inr Out_of_range)"

text \<open>
  The body of \<^verbatim>\<open>rescale_weight\<close> on Python floats (or on ints below \<open>2^52\<close>, on which
  the int operations give the same values): the operations of line 112 in the order
  Python evaluates them, each one rounded; the float division raises ZeroDivisionError
  on a zero divisor.
\<close>

definition rescale_weight_double ::
  "real \<Rightarrow> real \<Rightarrow> real \<Rightarrow> real \<Rightarrow> real \<Rightarrow> error + double_result" where
  "rescale_weight_double weight min_weight max_weight min_size max_size =
     (if max_size = min_size then Inr (Finite min_size)
      else
        with_double (to_double (weight - min_weight)) (\<lambda>n.
        with_double (to_double (max_weight - min_weight)) (\<lambda>d.
        if d = 0 then Inl ZeroDivisionError
        else
          with_double (to_double (n / d)) (\<lambda>q.
          with_double (to_double (max_size - min_size)) (\<lambda>s.
          with_double (to_double (q * s)) (\<lambda>p.
          Inr (to_double (min_size + p))))))))"

subsection \<open>The routine (lines 15-176)\<close>

text \<open>
  The statements of the routine in their order, each one that can raise bound by
  \<open>and_then\<close>. The calls into matplotlib and networkx are recorded as drawing calls with
  the arguments the routine computes for them; what happens inside those libraries is
  not part of the model. The first parameter is the namespace in which the routine's
  free names are resolved.
\<close>

definition visualize_micro_macro ::
  "('f, 'c) namespace \<Rightarrow> 'f library \<Rightarrow> 'f graph \<Rightarrow> ('f \<times> 'c) list \<Rightarrow> 'c graph \<Rightarrow> options \<Rightarrow>
   error + ('f, 'c) draw_call list" where
  "visualize_micro_macro genv lib G_micro mapping G_macro opts =
     (let fig = Subplots # (case method_title opts of None \<Rightarrow> [] | Some t \<Rightarrow> [Suptitle t]) in
      and_then (call_forward_builder genv mapping) (\<lambda>micro2macro_dict.
      and_then (call_inverse_builder genv micro2macro_dict) (\<lambda>macro2microlist_dict.
      let pos_micro = spring_layout lib G_micro in
      and_then (pos_macro_loop pos_micro macro2microlist_dict []) (\<lambda>pos_macro.
      and_then (case colormaps lib (node_cmap opts) of
                  None \<Rightarrow> Inl KeyError | Some cmap \<Rightarrow> Inr cmap) (\<lambda>cmap.
      and_then (assign_macro_colors (all_colorful opts) cmap (nc opts) G_macro pos_macro
                  macro2microlist_dict) (\<lambda>macro_colors_dict.
      and_then (assign_micro_colors micro2macro_dict macro_colors_dict pos_micro)
        (\<lambda>micro_colors_dict.
      and_then (lookup_all micro_colors_dict (nodes G_micro)) (\<lambda>micro_node_color.
      let panel0 = [Draw_micro G_micro pos_micro (min_ns opts) micro_node_color (nec opts)] in
      and_then (weight_scan (edges G_micro) 1000000000 (- 1000000000))
        (\<lambda>(min_weight_micro, max_weight_micro).
      and_then (edge_widths (edges G_micro) min_weight_micro max_weight_micro
                  (min_lw opts) (max_lw opts)) (\<lambda>micro_widths.
      let panel0_edges = map (\<lambda>(u, v, width). Draw_micro_edge u v width (ec opts)) micro_widths in
      and_then (macro_node_sizes macro2microlist_dict G_macro (min_ns opts) (max_ns opts))
        (\<lambda>macro_node_size.
      and_then (lookup_all macro_colors_dict (nodes G_macro)) (\<lambda>macro_node_color.
      let panel1 = [Draw_macro G_macro pos_macro macro_node_size macro_node_color (nec opts)] in
      and_then (weight_scan (edges G_macro) 1000000000 (- 1000000000))
        (\<lambda>(min_weight_macro, max_weight_macro).
      and_then (edge_widths (edges G_macro) min_weight_macro max_weight_macro
                  (min_lw opts) (max_lw opts)) (\<lambda>macro_widths.
      let panel1_edges = map (\<lambda>(u, v, width). Draw_macro_edge u v width (ec opts)) macro_widths in
      Inr (fig @ panel0 @ panel0_edges @ panel1 @ panel1_edges @
           [Set_title 0 ''Original network'', Set_title 1 ''Coarse-grained network'',
            Show])))))))))))))))"

subsection \<open>Concrete inputs\<close>

text \<open>
  The end-to-end scenario of the specification: fine nodes 1..4 with the edges
  (1, 2, w = 1) and (3, 4, w = 2), the mapping 1, 2 \<open>\<rightarrow>\<close> A and 3, 4 \<open>\<rightarrow>\<close> B, coarse nodes
  A and B with the edge (A, B, w = 1); the inverse map the specification expects for it,
  and one layout of the fine nodes.
\<close>

definition scenario_G_micro :: "nat graph" where
  "scenario_G_micro = \<lparr> nodes = [1, 2, 3, 4], edges = [(1, 2, Some 1), (3, 4, Some 2)] \<rparr>"

definition scenario_G_macro :: "string graph" where
  "scenario_G_macro = \<lparr> nodes = [''A'', ''B''], edges = [(''A'', ''B'', Some 1)] \<rparr>"

definition scenario_mapping :: "(nat \<times> string) list" where
  "scenario_mapping = [(1, ''A''), (2, ''A''), (3, ''B''), (4, ''B'')]"

definition scenario_macro2microlist :: "(string, nat list) dict" where
  "scenario_macro2microlist = [(''A'', [1, 2]), (''B'', [3, 4])]"

definition scenario_pos_micro :: "(nat, point) dict" where
  "scenario_pos_micro = [(1, (0, 0)), (2, (2, 0)), (3, (0, 2)), (4, (2, 4))]"

text \<open>
  A colormap of the kind the default \<^verbatim>\<open>node_cmap='Set2'\<close> names. These two definitions
  describe matplotlib, not the source file; they only serve to instantiate the colormap
  parameter at concrete inputs. A listed colormap of \<open>N\<close> colours sends a number \<open>x\<close> of
  [0, 1] to its entry \<open>\<lfloor>x * N\<rfloor>\<close>, and 1 to its last entry; Set2 lists eight colours.
\<close>

definition ListedColormap :: "color list \<Rightarrow> real \<Rightarrow> color" where
  "ListedColormap lut x = lut ! min (nat \<lfloor>x * real (length lut)\<rfloor>) (length lut - 1)"

definition Set2 :: "color list" where
  "Set2 =
     [RGBA (102 / 255) (194 / 255) (165 / 255) 1, RGBA (252 / 255) (141 / 255) (98 / 255) 1,
      RGBA (141 / 255) (160 / 255) (203 / 255) 1, RGBA (231 / 255) (138 / 255) (195 / 255) 1,
      RGBA (166 / 255) (216 / 255) (84 / 255) 1, RGBA (255 / 255) (217 / 255) (47 / 255) 1,
      RGBA (229 / 255) (196 / 255) (148 / 255) 1, RGBA (179 / 255) (179 / 255) (179 / 255) 1]"

definition scenario_macro_colors :: "(string, color) dict" where
  "scenario_macro_colors = [(''A'', Set2 ! 0), (''B'', Set2 ! 7)]"

text \<open>
  Nine coarse nodes of two fine nodes each, with the centroids of the fine nodes laid out
  on a line; a coarse node of two fine nodes beside a singleton; two singletons; the
  empty graph; and a library for the concrete runs: the layout on a line and the
  registry that knows Set2.
\<close>

definition nine_pairs :: "(nat, nat list) dict" where
  "nine_pairs =
     [(0, [0, 1]), (1, [2, 3]), (2, [4, 5]), (3, [6, 7]), (4, [8, 9]), (5, [10, 11]),
      (6, [12, 13]), (7, [14, 15]), (8, [16, 17])]"

definition nine_pairs_pos_macro :: "(nat, centroid) dict" where
  "nine_pairs_pos_macro =
     [(0, Centroid (1 / 2) 0), (1, Centroid (5 / 2) 0), (2, Centroid (9 / 2) 0),
      (3, Centroid (13 / 2) 0), (4, Centroid (17 / 2) 0), (5, Centroid (21 / 2) 0),
      (6, Centroid (25 / 2) 0), (7, Centroid (29 / 2) 0), (8, Centroid (33 / 2) 0)]"

definition nine_pairs_G_macro :: "nat graph" where
  "nine_pairs_G_macro = \<lparr> nodes = [0, 1, 2, 3, 4, 5, 6, 7, 8], edges = [] \<rparr>"

definition mixed_macro2microlist :: "(string, nat list) dict" where
  "mixed_macro2microlist = [(''A'', [1, 2]), (''B'', [3])]"

definition mixed_pos_macro :: "(string, centroid) dict" where
  "mixed_pos_macro = [(''A'', Centroid 1 0), (''B'', Centroid 0 2)]"

definition singletons_macro2microlist :: "(string, nat list) dict" where
  "singletons_macro2microlist = [(''A'', [1]), (''B'', [2])]"


definition line_layout :: "nat graph \<Rightarrow> (nat, point) dict" where
  "line_layout G = map (\<lambda>n. (n, (real n, 0))) (nodes G)"

definition example_library :: "nat library" where
  "example_library =
     \<lparr> spring_layout = line_layout,
       colormaps = (\<lambda>name. if name = ''Set2'' then Some (ListedColormap Set2) else None) \<rparr>"

definition empty_graph :: "'n graph" where
  "empty_graph = \<lparr> nodes = [], edges = [] \<rparr>"

section \<open>Properties\<close>

subsection \<open>Basic facts\<close>

lemma and_then_Inl [simp]: "and_then (Inl e) f = Inl e"
  by (simp add: and_then_def)

lemma and_then_Inr [simp]: "and_then (Inr x) f = f x"
  by (simp add: and_then_def)

lemma and_then_eq_Inr:
  "and_then m f = Inr y \<longleftrightarrow> (\<exists>x. m = Inr x \<and> f x = Inr y)"
  by (cases m) simp_all

lemma dict_get_Inr: "dict_get d k = Inr v \<longleftrightarrow> map_of d k = Some v"
  by (simp add: dict_get_def split: option.splits)

lemma map_of_dict_set: "map_of (dict_set d k v) = (map_of d)(k \<mapsto> v)"
  by (simp add: dict_set_def update_conv')

lemma keys_dict_set: "fst ` set (dict_set d k v) = insert k (fst ` set d)"
  by (simp add: dict_set_def dom_update)

lemma dict_set_fresh: "k \<notin> fst ` set d \<Longrightarrow> dict_set d k v = d @ [(k, v)]"
  by (induction d) (auto simp add: dict_set_def)

lemma dict_get_total: "k \<in> fst ` set d \<Longrightarrow> \<exists>v. dict_get d k = Inr v"
  by (cases "map_of d k") (auto simp add: dict_get_def map_of_eq_None_iff)

lemma lookup_all_total:
  "set ks \<subseteq> fst ` set d \<Longrightarrow>
   \<exists>vs. lookup_all d ks = Inr vs \<and> list_all2 (\<lambda>k v. dict_get d k = Inr v) ks vs"
proof (induction ks)
  case Nil
  show ?case by simp
next
  case (Cons k ks)
  from Cons.prems obtain v where v: "dict_get d k = Inr v"
    using dict_get_total [of k d] by auto
  from Cons obtain vs where vs: "lookup_all d ks = Inr vs"
    "list_all2 (\<lambda>k v. dict_get d k = Inr v) ks vs" by auto
  show ?case by (simp add: v vs)
qed

lemma lookup_all_Inr:
  "lookup_all d ks = Inr vs \<Longrightarrow> list_all2 (\<lambda>k v. dict_get d k = Inr v) ks vs"
  by (induction ks arbitrary: vs) (auto simp add: and_then_eq_Inr)

subsection \<open>Name resolution\<close>

lemma resolve_forward_missing:
  "resolve module_globals ''get_micro2macro_dict_from_pd_df'' =
     Inl (NameError ''get_micro2macro_dict_from_pd_df'')"
  by (simp add: resolve_def module_globals_def py_builtins_def)

text \<open>
  Claim C1. With the globals the source file itself binds, every call of the routine
  raises NameError for \<^verbatim>\<open>get_micro2macro_dict_from_pd_df\<close> at line 51, whatever the
  graphs, the mapping, the options and the libraries are: neither map is built. (The
  figure calls of lines 46-48 are taken not to fail.)
\<close>

theorem undefined_helper_NameError:
  "visualize_micro_macro module_globals lib G_micro mapping G_macro opts =
     Inl (NameError ''get_micro2macro_dict_from_pd_df'')"
  by (simp add: visualize_micro_macro_def call_forward_builder_def resolve_forward_missing)

subsection \<open>The mapping translator\<close>

lemma forward_fold_distinct:
  "distinct (map fst d) \<Longrightarrow>
   distinct (map fst (fold (\<lambda>row d. dict_set d (fst row) (snd row)) rows d))"
  by (induction rows arbitrary: d) (simp_all add: dict_set_def distinct_update)

lemma forward_distinct: "distinct (map fst (get_micro2macro_dict_from_pd_df mapping))"
  by (simp add: get_micro2macro_dict_from_pd_df_def forward_fold_distinct)

lemma inverse_fold_lookup:
  "map_of (fold (\<lambda>item inv.
             dict_set inv (snd item)
               (case map_of inv (snd item) of
                  None \<Rightarrow> [fst item]
                | Some micro_nodes \<Rightarrow> micro_nodes @ [fst item])) items acc) c =
   (case map_of acc c of
      None \<Rightarrow> if filter (\<lambda>p. snd p = c) items = [] then None
              else Some (map fst (filter (\<lambda>p. snd p = c) items))
    | Some ms \<Rightarrow> Some (ms @ map fst (filter (\<lambda>p. snd p = c) items)))"
proof (induction items arbitrary: acc)
  case Nil
  show ?case by (simp split: option.splits)
next
  case (Cons item items)
  show ?case
    by (simp add: Cons.IH map_of_dict_set split: option.splits)
qed

lemma inverse_lookup:
  "map_of (get_macro2microlist_dict_from_micro2macro_dict d) c =
     (if filter (\<lambda>p. snd p = c) d = [] then None
      else Some (map fst (filter (\<lambda>p. snd p = c) d)))"
  by (simp add: get_macro2microlist_dict_from_micro2macro_dict_def inverse_fold_lookup)

lemma members_in_order:
  "distinct (map fst d) \<Longrightarrow>
   map fst (filter (\<lambda>p. snd p = c) d) = filter (\<lambda>f. map_of d f = Some c) (map fst d)"
proof (induction d)
  case Nil
  show ?case by simp
next
  case (Cons p d)
  have fresh: "f \<noteq> fst p" if "f \<in> set (map fst d)" for f
    using Cons.prems that by (force simp add: image_iff)
  have "filter (\<lambda>f. ((map_of d)(fst p \<mapsto> snd p)) f = Some c) (map fst d) =
        filter (\<lambda>f. map_of d f = Some c) (map fst d)"
    by (rule filter_cong) (simp_all add: fresh)
  with Cons show ?case by (cases p) simp
qed

text \<open>
  Claim C4. Mapping round-trip, on the two helpers as the specification describes them:
  every fine node \<open>f\<close> that is a key of the forward map appears in the inverse map's list
  of the coarse node \<open>forward_map[f]\<close> and in the list of no other coarse node; and the
  list of a coarse node holds its fine nodes in the iteration order of the forward map.
\<close>

theorem mapping_round_trip:
  "(\<forall>f c. dict_get (get_micro2macro_dict_from_pd_df mapping) f = Inr c \<longrightarrow>
      (\<exists>ms. dict_get (get_macro2microlist_dict_from_micro2macro_dict
                        (get_micro2macro_dict_from_pd_df mapping)) c = Inr ms \<and>
            f \<in> set ms) \<and>
      (\<forall>c' ms'. dict_get (get_macro2microlist_dict_from_micro2macro_dict
                            (get_micro2macro_dict_from_pd_df mapping)) c' = Inr ms' \<longrightarrow>
                f \<in> set ms' \<longrightarrow> c' = c)) \<and>
   (\<forall>c ms. dict_get (get_macro2microlist_dict_from_micro2macro_dict
                       (get_micro2macro_dict_from_pd_df mapping)) c = Inr ms \<longrightarrow>
      ms = filter (\<lambda>f. dict_get (get_micro2macro_dict_from_pd_df mapping) f = Inr c)
             (map fst (get_micro2macro_dict_from_pd_df mapping)))"
proof -
  define fwd where "fwd = get_micro2macro_dict_from_pd_df mapping"
  have dist: "distinct (map fst fwd)"
    by (simp add: fwd_def forward_distinct)
  have inv: "dict_get (get_macro2microlist_dict_from_micro2macro_dict fwd) c = Inr ms \<longleftrightarrow>
      ms \<noteq> [] \<and> ms = filter (\<lambda>f. dict_get fwd f = Inr c) (map fst fwd)" for c ms
  proof -
    have "filter (\<lambda>p. snd p = c) fwd = [] \<longleftrightarrow>
          filter (\<lambda>f. map_of fwd f = Some c) (map fst fwd) = []"
      using members_in_order [OF dist, of c] by (metis map_is_Nil_conv)
    then show ?thesis
      by (auto simp add: dict_get_Inr inverse_lookup members_in_order [OF dist])
  qed
  have mem: "f \<in> set (filter (\<lambda>f. dict_get fwd f = Inr c) (map fst fwd)) \<longleftrightarrow>
      dict_get fwd f = Inr c" for f c
    by (auto simp add: dict_get_Inr dest: map_of_SomeD intro: rev_image_eqI)
  have "(\<forall>f c. dict_get fwd f = Inr c \<longrightarrow>
      (\<exists>ms. dict_get (get_macro2microlist_dict_from_micro2macro_dict fwd) c = Inr ms \<and>
            f \<in> set ms) \<and>
      (\<forall>c' ms'. dict_get (get_macro2microlist_dict_from_micro2macro_dict fwd) c' = Inr ms' \<longrightarrow>
                f \<in> set ms' \<longrightarrow> c' = c)) \<and>
   (\<forall>c ms. dict_get (get_macro2microlist_dict_from_micro2macro_dict fwd) c = Inr ms \<longrightarrow>
      ms = filter (\<lambda>f. dict_get fwd f = Inr c) (map fst fwd))"
  proof (intro conjI allI impI)
    fix f c assume a: "dict_get fwd f = Inr c"
    then have fm: "f \<in> set (filter (\<lambda>f. dict_get fwd f = Inr c) (map fst fwd))"
      by (simp only: mem)
    then have "filter (\<lambda>f. dict_get fwd f = Inr c) (map fst fwd) \<noteq> []"
      by (metis empty_iff empty_set)
    with fm show "\<exists>ms. dict_get (get_macro2microlist_dict_from_micro2macro_dict fwd) c = Inr ms \<and>
            f \<in> set ms"
      unfolding inv by blast
  next
    fix f c c' ms'
    assume a: "dict_get fwd f = Inr c"
      and b: "dict_get (get_macro2microlist_dict_from_micro2macro_dict fwd) c' = Inr ms'"
      and c: "f \<in> set ms'"
    from b c have "dict_get fwd f = Inr c'"
      unfolding inv using mem by blast
    with a show "c' = c" by simp
  next
    fix c ms
    assume "dict_get (get_macro2microlist_dict_from_micro2macro_dict fwd) c = Inr ms"
    then show "ms = filter (\<lambda>f. dict_get fwd f = Inr c) (map fst fwd)"
      unfolding inv by simp
  qed
  then show ?thesis by (simp only: fwd_def)
qed

lemma scenario_forward:
  "get_micro2macro_dict_from_pd_df scenario_mapping = scenario_mapping"
  by (simp add: get_micro2macro_dict_from_pd_df_def scenario_mapping_def dict_set_def)

lemma scenario_inverse:
  "get_macro2microlist_dict_from_micro2macro_dict scenario_mapping =
     [(''A'', [1, 2]), (''B'', [3, 4])]"
  by (simp add: get_macro2microlist_dict_from_micro2macro_dict_def scenario_mapping_def dict_set_def)

theorem mapping_round_trip_witness:
  "dict_get (get_micro2macro_dict_from_pd_df scenario_mapping) 3 = Inr ''B'' \<and>
   dict_get (get_macro2microlist_dict_from_micro2macro_dict
               (get_micro2macro_dict_from_pd_df scenario_mapping)) ''B'' = Inr [3, 4] \<and>
   3 \<in> set [3, 4 :: nat] \<and>
   dict_get (get_macro2microlist_dict_from_micro2macro_dict
               (get_micro2macro_dict_from_pd_df scenario_mapping)) ''A'' = Inr [1, 2] \<and>
   3 \<notin> set [1, 2 :: nat] \<and>
   [3, 4] = filter (\<lambda>f. dict_get (get_micro2macro_dict_from_pd_df scenario_mapping) f = Inr ''B'')
              (map fst (get_micro2macro_dict_from_pd_df scenario_mapping))"
  using mapping_round_trip [of scenario_mapping]
  by (simp add: scenario_forward scenario_inverse dict_get_def) (simp add: scenario_mapping_def)

subsection \<open>The layout deriver\<close>

lemma pos_macro_loop_correct:
  assumes "distinct (map fst items)"
    and "\<forall>(c, ms) \<in> set items. set ms \<subseteq> fst ` set pos_micro"
  shows "\<exists>pos_macro. pos_macro_loop pos_micro items acc = Inr pos_macro \<and>
     (\<forall>(c, ms) \<in> set items. \<exists>ps. lookup_all pos_micro ms = Inr ps \<and>
         map_of pos_macro c = Some (np_mean_axis0 ps)) \<and>
     (\<forall>k. k \<notin> fst ` set items \<longrightarrow> map_of pos_macro k = map_of acc k)"
  using assms
proof (induction items arbitrary: acc)
  case Nil
  show ?case by simp
next
  case (Cons item items)
  obtain c ms where item: "item = (c, ms)" by (cases item)
  from Cons.prems item obtain ps where ps: "lookup_all pos_micro ms = Inr ps"
    using lookup_all_total [of ms pos_micro] by auto
  from Cons.prems have d: "distinct (map fst items)"
    and m: "\<forall>(c, ms) \<in> set items. set ms \<subseteq> fst ` set pos_micro"
    and fresh: "c \<notin> fst ` set items"
    by (auto simp add: item)
  from Cons.IH [OF d m, of "dict_set acc c (np_mean_axis0 ps)"]
  obtain pm where pm: "pos_macro_loop pos_micro items (dict_set acc c (np_mean_axis0 ps)) = Inr pm"
    and rest: "\<forall>(c, ms) \<in> set items. \<exists>ps. lookup_all pos_micro ms = Inr ps \<and>
         map_of pm c = Some (np_mean_axis0 ps)"
    and other: "\<forall>k. k \<notin> fst ` set items \<longrightarrow>
         map_of pm k = map_of (dict_set acc c (np_mean_axis0 ps)) k"
    by blast
  from other fresh have here: "map_of pm c = Some (np_mean_axis0 ps)"
    by (simp add: map_of_dict_set)
  have "pos_macro_loop pos_micro (item # items) acc = Inr pm"
    by (simp add: item ps pm)
  moreover have "\<forall>(c, ms) \<in> set (item # items). \<exists>ps. lookup_all pos_micro ms = Inr ps \<and>
         map_of pm c = Some (np_mean_axis0 ps)"
    using rest here ps by (simp add: item)
  moreover have "\<forall>k. k \<notin> fst ` set (item # items) \<longrightarrow> map_of pm k = map_of acc k"
    using other by (simp add: item map_of_dict_set)
  ultimately show ?case by blast
qed


lemma pos_macro_loop_key_list:
  "pos_macro_loop pos_micro items acc = Inr pm \<Longrightarrow> distinct (map fst items) \<Longrightarrow>
   fst ` set items \<inter> fst ` set acc = {} \<Longrightarrow>
   map fst pm = map fst acc @ map fst items"
proof (induction items arbitrary: acc)
  case Nil
  then show ?case by simp
next
  case (Cons item items)
  obtain c ms where item: "item = (c, ms)" by (cases item)
  from Cons.prems(1) obtain ps where
    run: "pos_macro_loop pos_micro items (dict_set acc c (np_mean_axis0 ps)) = Inr pm"
    by (auto simp add: item and_then_eq_Inr)
  from Cons.prems have fresh: "c \<notin> fst ` set acc" and d: "distinct (map fst items)"
    and disj: "fst ` set items \<inter> fst ` set (dict_set acc c (np_mean_axis0 ps)) = {}"
    by (auto simp add: item keys_dict_set)
  from Cons.IH [OF run d disj] show ?case
    by (simp add: item dict_set_fresh [OF fresh])
qed

text \<open>
  Claim C5. Centroid correctness. When the inverse map is a dictionary (its keys are
  distinct) and every member it lists has a position, the loop of lines 59-61 returns,
  and the position it derives for a coarse node with a non-empty member list is the
  componentwise arithmetic mean of the positions \<open>ps\<close> of its members.
\<close>

theorem centroid_correctness:
  assumes "distinct (map fst macro2microlist_dict)"
    and "\<forall>(c, ms) \<in> set macro2microlist_dict. set ms \<subseteq> fst ` set pos_micro"
  shows "\<exists>pos_macro. pos_macro_loop pos_micro macro2microlist_dict [] = Inr pos_macro \<and>
     (\<forall>(c, ms) \<in> set macro2microlist_dict. ms \<noteq> [] \<longrightarrow>
        (\<exists>ps. list_all2 (\<lambda>f p. dict_get pos_micro f = Inr p) ms ps \<and>
           dict_get pos_macro c =
             Inr (Centroid (sum_list (map fst ps) / real (length ms))
                           (sum_list (map snd ps) / real (length ms)))))"
proof -
  from pos_macro_loop_correct [OF assms, of "[]"]
  obtain pm where pm: "pos_macro_loop pos_micro macro2microlist_dict [] = Inr pm"
    and all: "\<forall>(c, ms) \<in> set macro2microlist_dict. \<exists>ps. lookup_all pos_micro ms = Inr ps \<and>
         map_of pm c = Some (np_mean_axis0 ps)"
    by blast
  have "\<exists>ps. list_all2 (\<lambda>f p. dict_get pos_micro f = Inr p) ms ps \<and>
           dict_get pm c =
             Inr (Centroid (sum_list (map fst ps) / real (length ms))
                           (sum_list (map snd ps) / real (length ms)))"
    if "(c, ms) \<in> set macro2microlist_dict" and "ms \<noteq> []" for c ms
  proof -
    from all that obtain ps where ps: "lookup_all pos_micro ms = Inr ps"
      and c: "map_of pm c = Some (np_mean_axis0 ps)" by blast
    from ps have l: "list_all2 (\<lambda>f p. dict_get pos_micro f = Inr p) ms ps"
      by (rule lookup_all_Inr)
    then have len: "length ps = length ms"
      by (simp add: list_all2_lengthD)
    with that have "ps \<noteq> []" by auto
    with c len have "dict_get pm c =
             Inr (Centroid (sum_list (map fst ps) / real (length ms))
                           (sum_list (map snd ps) / real (length ms)))"
      by (simp add: dict_get_Inr np_mean_axis0_def)
    with l show ?thesis by blast
  qed
  with pm show ?thesis by blast
qed

theorem centroid_correctness_witness:
  "distinct (map fst scenario_macro2microlist) \<and>
   pos_macro_loop scenario_pos_micro scenario_macro2microlist [] =
     Inr [(''A'', Centroid 1 0), (''B'', Centroid 1 3)]"
  using centroid_correctness [of scenario_macro2microlist scenario_pos_micro]
  by (simp add: scenario_macro2microlist_def scenario_pos_micro_def dict_get_def dict_set_def
        np_mean_axis0_def)

subsection \<open>The colour assigner\<close>

lemma micro_colors_loop_Inr:
  "micro_colors_loop fwd mcd ks acc = Inr mc \<Longrightarrow>
   (\<forall>f \<in> set ks. \<exists>c col. dict_get fwd f = Inr c \<and> dict_get mcd c = Inr col \<and>
                         map_of mc f = Some col) \<and>
   (\<forall>f. f \<notin> set ks \<longrightarrow> map_of mc f = map_of acc f)"
proof (induction ks arbitrary: acc)
  case Nil
  then show ?case by simp
next
  case (Cons k ks)
  from Cons.prems obtain c col where c: "dict_get fwd k = Inr c"
    and col: "dict_get mcd c = Inr col"
    and rest: "micro_colors_loop fwd mcd ks (dict_set acc k col) = Inr mc"
    by (auto simp add: and_then_eq_Inr)
  from Cons.IH [OF rest]
  have inner: "\<forall>f \<in> set ks. \<exists>c col. dict_get fwd f = Inr c \<and> dict_get mcd c = Inr col \<and>
                         map_of mc f = Some col"
    and outer: "\<forall>f. f \<notin> set ks \<longrightarrow> map_of mc f = map_of (dict_set acc k col) f"
    by blast+
  have "\<exists>c col. dict_get fwd k = Inr c \<and> dict_get mcd c = Inr col \<and> map_of mc k = Some col"
  proof (cases "k \<in> set ks")
    case True
    with inner show ?thesis by blast
  next
    case False
    with outer have "map_of mc k = Some col" by (simp add: map_of_dict_set)
    with c col show ?thesis by blast
  qed
  moreover have "\<forall>f. f \<notin> set (k # ks) \<longrightarrow> map_of mc f = map_of acc f"
    using outer by (simp add: map_of_dict_set)
  ultimately show ?case using inner by simp
qed

lemma micro_colors_loop_total:
  "\<forall>f \<in> set ks. \<exists>c. dict_get fwd f = Inr c \<and> c \<in> fst ` set mcd \<Longrightarrow>
   \<exists>mc. micro_colors_loop fwd mcd ks acc = Inr mc"
proof (induction ks arbitrary: acc)
  case Nil
  show ?case by simp
next
  case (Cons k ks)
  from Cons.prems obtain c where c: "dict_get fwd k = Inr c" and "c \<in> fst ` set mcd"
    by auto
  then obtain col where col: "dict_get mcd c = Inr col"
    using dict_get_total [of c mcd] by blast
  from Cons.IH [of "dict_set acc k col"] Cons.prems
  obtain mc where "micro_colors_loop fwd mcd ks (dict_set acc k col) = Inr mc" by auto
  then show ?case by (simp add: c col)
qed

text \<open>
  Claim C8. Colour consistency. When every fine node of the position map is a key of the
  forward map and its coarse node has a colour, the loop of lines 82-84 returns, and the
  colour of every fine node of the position map is the colour of its coarse node: the
  forward-map lookup followed by the colour-map lookup.
\<close>

theorem color_consistency:
  assumes "\<forall>f \<in> fst ` set pos_micro.
             \<exists>c. dict_get micro2macro_dict f = Inr c \<and> c \<in> fst ` set macro_colors_dict"
  shows "\<exists>micro_colors_dict.
     assign_micro_colors micro2macro_dict macro_colors_dict pos_micro = Inr micro_colors_dict \<and>
     (\<forall>f \<in> fst ` set pos_micro.
        \<exists>c col. dict_get micro2macro_dict f = Inr c \<and> dict_get macro_colors_dict c = Inr col \<and>
                dict_get micro_colors_dict f = Inr col)"
proof -
  from assms have "\<forall>f \<in> set (map fst pos_micro).
             \<exists>c. dict_get micro2macro_dict f = Inr c \<and> c \<in> fst ` set macro_colors_dict"
    by simp
  from micro_colors_loop_total [OF this, of "[]"]
  obtain mc where mc: "micro_colors_loop micro2macro_dict macro_colors_dict (map fst pos_micro) []
      = Inr mc" by blast
  from micro_colors_loop_Inr [OF mc]
  have "\<forall>f \<in> fst ` set pos_micro.
        \<exists>c col. dict_get micro2macro_dict f = Inr c \<and> dict_get macro_colors_dict c = Inr col \<and>
                dict_get mc f = Inr col"
    by (simp add: dict_get_Inr)
  with mc show ?thesis by (auto simp add: assign_micro_colors_def)
qed

theorem color_consistency_witness:
  "assign_micro_colors scenario_mapping scenario_macro_colors scenario_pos_micro =
     Inr [(1, Set2 ! 0), (2, Set2 ! 0), (3, Set2 ! 7), (4, Set2 ! 7)]"
  using color_consistency [of scenario_pos_micro scenario_mapping scenario_macro_colors]
  by (simp add: assign_micro_colors_def scenario_mapping_def scenario_macro_colors_def
        scenario_pos_micro_def dict_get_def dict_set_def)

lemma number_of_big_macro_nodes_items:
  "number_of_big_macro_nodes mm = length (filter (\<lambda>p. 1 < length (snd p)) mm)"
  by (simp add: number_of_big_macro_nodes_def filter_map comp_def)

lemma length_linspace01 [simp]: "length (linspace01 n) = n"
  by (simp add: linspace01_def)




lemma selective_loop_correct:
  assumes "\<forall>(c, ms) \<in> set items. dict_get mm c = Inr ms"
    and "distinct (map fst items)"
    and "fst ` set items \<inter> fst ` set d0 = {}"
    and "i + length (filter (\<lambda>p. 1 < length (snd p)) items) \<le> length palette"
  shows "\<exists>cols. selective_loop mm palette neutral (map fst items) i d0 =
             Inr (d0 @ zip (map fst items) cols) \<and>
           length cols = length items \<and>
           map fst (filter (\<lambda>p. 1 < length (snd p)) (zip cols (map snd items))) =
             take (length (filter (\<lambda>p. 1 < length (snd p)) items)) (drop i palette) \<and>
           (\<forall>(col, ms) \<in> set (zip cols (map snd items)). length ms \<le> 1 \<longrightarrow> col = neutral)"
  using assms
proof (induction items arbitrary: i d0)
  case Nil
  show ?case by simp
next
  case (Cons item items)
  obtain c ms where item: "item = (c, ms)" by (cases item)
  from Cons.prems have get: "dict_get mm c = Inr ms"
    and all: "\<forall>(c, ms) \<in> set items. dict_get mm c = Inr ms"
    and dist: "distinct (map fst items)"
    and fresh: "c \<notin> fst ` set d0" "c \<notin> fst ` set items"
    and disj: "fst ` set items \<inter> fst ` set d0 = {}"
    by (auto simp add: item)
  show ?case
  proof (cases "1 < length ms")
    case True
    with Cons.prems(4) have i: "i < length palette"
      and bound: "Suc i + length (filter (\<lambda>p. 1 < length (snd p)) items) \<le> length palette"
      by (simp_all add: item)
    have disj': "fst ` set items \<inter> fst ` set (dict_set d0 c (palette ! i)) = {}"
      using disj fresh by (auto simp add: keys_dict_set)
    from Cons.IH [OF all dist disj' bound]
    obtain cols where run: "selective_loop mm palette neutral (map fst items) (Suc i)
          (dict_set d0 c (palette ! i)) = Inr (dict_set d0 c (palette ! i) @ zip (map fst items) cols)"
      and len: "length cols = length items"
      and big: "map fst (filter (\<lambda>p. 1 < length (snd p)) (zip cols (map snd items))) =
             take (length (filter (\<lambda>p. 1 < length (snd p)) items)) (drop (Suc i) palette)"
      and small: "\<forall>(col, ms) \<in> set (zip cols (map snd items)). length ms \<le> 1 \<longrightarrow> col = neutral"
      by blast
    have "selective_loop mm palette neutral (map fst (item # items)) i d0 =
             Inr (d0 @ zip (map fst (item # items)) (palette ! i # cols))"
      using True i get run by (simp add: item dict_set_fresh [OF fresh(1)])
    moreover have "length (palette ! i # cols) = length (item # items)"
      using len by simp
    moreover have "map fst (filter (\<lambda>p. 1 < length (snd p))
                     (zip (palette ! i # cols) (map snd (item # items)))) =
             take (length (filter (\<lambda>p. 1 < length (snd p)) (item # items))) (drop i palette)"
      using True big i by (simp add: item Cons_nth_drop_Suc [symmetric])
    moreover have "\<forall>(col, ms) \<in> set (zip (palette ! i # cols) (map snd (item # items))).
                     length ms \<le> 1 \<longrightarrow> col = neutral"
      using True small by (simp add: item)
    ultimately show ?thesis by blast
  next
    case False
    with Cons.prems(4) have
      bound: "i + length (filter (\<lambda>p. 1 < length (snd p)) items) \<le> length palette"
      by (simp add: item)
    have disj': "fst ` set items \<inter> fst ` set (dict_set d0 c neutral) = {}"
      using disj fresh by (auto simp add: keys_dict_set)
    from Cons.IH [OF all dist disj' bound]
    obtain cols where run: "selective_loop mm palette neutral (map fst items) i
          (dict_set d0 c neutral) = Inr (dict_set d0 c neutral @ zip (map fst items) cols)"
      and len: "length cols = length items"
      and big: "map fst (filter (\<lambda>p. 1 < length (snd p)) (zip cols (map snd items))) =
             take (length (filter (\<lambda>p. 1 < length (snd p)) items)) (drop i palette)"
      and small: "\<forall>(col, ms) \<in> set (zip cols (map snd items)). length ms \<le> 1 \<longrightarrow> col = neutral"
      by blast
    have "selective_loop mm palette neutral (map fst (item # items)) i d0 =
             Inr (d0 @ zip (map fst (item # items)) (neutral # cols))"
      using False get run by (simp add: item dict_set_fresh [OF fresh(1)])
    moreover have "length (neutral # cols) = length (item # items)"
      using len by simp
    moreover have "map fst (filter (\<lambda>p. 1 < length (snd p))
                     (zip (neutral # cols) (map snd (item # items)))) =
             take (length (filter (\<lambda>p. 1 < length (snd p)) (item # items))) (drop i palette)"
      using False big by (simp add: item)
    moreover have "\<forall>(col, ms) \<in> set (zip (neutral # cols) (map snd (item # items))).
                     length ms \<le> 1 \<longrightarrow> col = neutral"
      using small by (simp add: item)
    ultimately show ?thesis by blast
  qed
qed

lemma non_neutral_colors_are_palette:
  assumes len: "length cols = length sizes"
    and big: "map fst (filter (\<lambda>p. 1 < length (snd p)) (zip cols sizes)) = palette"
    and small: "\<forall>(col, ms) \<in> set (zip cols sizes). length ms \<le> 1 \<longrightarrow> col = neutral"
    and fresh: "neutral \<notin> set palette"
  shows "set (filter (\<lambda>col. col \<noteq> neutral) cols) = set palette"
proof (rule set_eqI, rule iffI)
  fix col assume "col \<in> set (filter (\<lambda>col. col \<noteq> neutral) cols)"
  then have c: "col \<in> set cols" and n: "col \<noteq> neutral" by simp_all
  from len c obtain ms where z: "(col, ms) \<in> set (zip cols sizes)"
    by (rule in_set_impl_in_set_zip1)
  with small n have "1 < length ms" by fastforce
  with z have "col \<in> set (map fst (filter (\<lambda>p. 1 < length (snd p)) (zip cols sizes)))"
    by force
  then show "col \<in> set palette" by (simp only: big)
next
  fix col assume p: "col \<in> set palette"
  with fresh have n: "col \<noteq> neutral" by blast
  from p have "col \<in> set (map fst (filter (\<lambda>p. 1 < length (snd p)) (zip cols sizes)))"
    by (simp only: big)
  then obtain ms where "(col, ms) \<in> set (zip cols sizes)" by auto
  then have "col \<in> set cols" by (rule set_zip_leftD)
  with n show "col \<in> set (filter (\<lambda>col. col \<noteq> neutral) cols)" by simp
qed

lemma linspace01_9: "linspace01 9 = [0, 1 / 8, 2 / 8, 3 / 8, 4 / 8, 5 / 8, 6 / 8, 7 / 8, 1]"
  by (simp add: linspace01_def upt_rec)

lemma Set2_palette_9:
  "map (ListedColormap Set2) (linspace01 9) =
     [RGBA (102 / 255) (194 / 255) (165 / 255) 1,
      RGBA (252 / 255) (141 / 255) (98 / 255) 1,
      RGBA (141 / 255) (160 / 255) (203 / 255) 1,
      RGBA (231 / 255) (138 / 255) (195 / 255) 1,
      RGBA (166 / 255) (216 / 255) (84 / 255) 1,
      RGBA (255 / 255) (217 / 255) (47 / 255) 1,
      RGBA (229 / 255) (196 / 255) (148 / 255) 1,
      RGBA (179 / 255) (179 / 255) (179 / 255) 1,
      RGBA (179 / 255) (179 / 255) (179 / 255) 1]"
  by (simp add: linspace01_9 ListedColormap_def Set2_def)

lemma nine_pairs_big: "number_of_big_macro_nodes nine_pairs = 9"
  by (simp add: number_of_big_macro_nodes_def nine_pairs_def)

lemma nine_pairs_colors:
  "assign_macro_colors False (ListedColormap Set2) (Named ''w'') nine_pairs_G_macro
     nine_pairs_pos_macro nine_pairs =
   Inr [(0, RGBA (102 / 255) (194 / 255) (165 / 255) 1),
        (1, RGBA (252 / 255) (141 / 255) (98 / 255) 1),
        (2, RGBA (141 / 255) (160 / 255) (203 / 255) 1),
        (3, RGBA (231 / 255) (138 / 255) (195 / 255) 1),
        (4, RGBA (166 / 255) (216 / 255) (84 / 255) 1),
        (5, RGBA (255 / 255) (217 / 255) (47 / 255) 1),
        (6, RGBA (229 / 255) (196 / 255) (148 / 255) 1),
        (7, RGBA (179 / 255) (179 / 255) (179 / 255) 1),
        (8, RGBA (179 / 255) (179 / 255) (179 / 255) 1)]"
  by (simp add: assign_macro_colors_def nine_pairs_big Set2_palette_9)
     (simp add: nine_pairs_def nine_pairs_pos_macro_def dict_get_def dict_set_def)

lemma nine_pairs_pos_macro_derived:
  "pos_macro_loop (line_layout \<lparr> nodes = [0, 1, 2, 3, 4, 5, 6, 7, 8, 9, 10, 11, 12, 13, 14, 15, 16, 17], edges = [] \<rparr>)
     nine_pairs [] = Inr nine_pairs_pos_macro"
  by (simp add: line_layout_def nine_pairs_def nine_pairs_pos_macro_def dict_get_def dict_set_def
        np_mean_axis0_def)

text \<open>
  Claim C7, as stated, fails: the count of distinct non-neutral colours depends on the
  colormap. With the default colormap Set2 (eight colours) and nine coarse nodes of two
  fine nodes each, the nine samples of \<^verbatim>\<open>np.linspace(0, 1, 9)\<close> give eight distinct
  colours only: the last two coarse nodes share the last colour of Set2.
\<close>

theorem selective_count_counterexample:
  "map_sum id (distinct_non_neutral_colors (Named ''w''))
     (assign_macro_colors False (ListedColormap Set2) (Named ''w'') nine_pairs_G_macro
        nine_pairs_pos_macro nine_pairs) = Inr 8 \<and>
   number_of_big_macro_nodes nine_pairs = 9"
  by (simp add: nine_pairs_colors nine_pairs_big distinct_non_neutral_colors_def)

text \<open>
  Claim C7, amended. In selective mode, for an inverse map with distinct keys and the
  position map of lines 59-61: the assignment returns a colour for every coarse node, in
  the order of the inverse map; the colours of the coarse nodes of more than one fine
  node are, in iteration order, exactly the \<open>k\<close> colours the colormap gives at the \<open>k\<close>
  evenly spaced samples, \<open>k\<close> being the number of such nodes; every coarse node of at
  most one fine node receives the neutral colour; and when the \<open>k\<close> sampled colours are
  pairwise distinct and differ from the neutral colour, the number of distinct
  non-neutral colours is \<open>k\<close>.
\<close>

theorem selective_coloring:
  assumes "distinct (map fst macro2microlist_dict)"
    and "pos_macro_loop pos_micro macro2microlist_dict [] = Inr pos_macro"
  shows "\<exists>macro_colors_dict.
     assign_macro_colors False cmap neutral G_macro pos_macro macro2microlist_dict =
       Inr macro_colors_dict \<and>
     map fst macro_colors_dict = map fst macro2microlist_dict \<and>
     map fst (filter (\<lambda>p. 1 < length (snd p))
                (zip (map snd macro_colors_dict) (map snd macro2microlist_dict))) =
       map cmap (linspace01 (number_of_big_macro_nodes macro2microlist_dict)) \<and>
     (\<forall>(col, ms) \<in> set (zip (map snd macro_colors_dict) (map snd macro2microlist_dict)).
        length ms \<le> 1 \<longrightarrow> col = neutral) \<and>
     (distinct (map cmap (linspace01 (number_of_big_macro_nodes macro2microlist_dict))) \<and>
      neutral \<notin> set (map cmap (linspace01 (number_of_big_macro_nodes macro2microlist_dict))) \<longrightarrow>
        distinct_non_neutral_colors neutral macro_colors_dict =
          number_of_big_macro_nodes macro2microlist_dict)"
proof -
  define k where "k = number_of_big_macro_nodes macro2microlist_dict"
  define palette where "palette = map cmap (linspace01 k)"
  have kp: "length palette = k" by (simp add: palette_def)
  have k: "k = length (filter (\<lambda>p. 1 < length (snd p)) macro2microlist_dict)"
    by (simp only: k_def number_of_big_macro_nodes_items)
  from assms have keys: "map fst pos_macro = map fst macro2microlist_dict"
    using pos_macro_loop_key_list [of pos_micro macro2microlist_dict "[]" pos_macro] by simp
  have get: "\<forall>(c, ms) \<in> set macro2microlist_dict. dict_get macro2microlist_dict c = Inr ms"
    using assms(1) by (auto simp add: dict_get_Inr)
  have bound: "0 + length (filter (\<lambda>p. 1 < length (snd p)) macro2microlist_dict) \<le> length palette"
    unfolding kp k [symmetric] by simp
  have disj: "fst ` set macro2microlist_dict \<inter> fst ` set [] = {}" by simp
  from selective_loop_correct [OF get assms(1) disj bound, of neutral]
  obtain cols where run: "selective_loop macro2microlist_dict palette neutral
        (map fst macro2microlist_dict) 0 [] = Inr ([] @ zip (map fst macro2microlist_dict) cols)"
    and len: "length cols = length macro2microlist_dict"
    and big: "map fst (filter (\<lambda>p. 1 < length (snd p)) (zip cols (map snd macro2microlist_dict))) =
        take (length (filter (\<lambda>p. 1 < length (snd p)) macro2microlist_dict)) (drop 0 palette)"
    and small: "\<forall>(col, ms) \<in> set (zip cols (map snd macro2microlist_dict)).
        length ms \<le> 1 \<longrightarrow> col = neutral"
    by blast
  define d where "d = zip (map fst macro2microlist_dict) cols"
  have d1: "map fst d = map fst macro2microlist_dict" and d2: "map snd d = cols"
    using len by (simp_all add: d_def)
  from big have big': "map fst (filter (\<lambda>p. 1 < length (snd p))
      (zip cols (map snd macro2microlist_dict))) = palette"
    unfolding k [symmetric] by (simp add: kp)
  have run': "assign_macro_colors False cmap neutral G_macro pos_macro macro2microlist_dict = Inr d"
    using run by (simp add: assign_macro_colors_def keys d_def palette_def k_def)
  have count: "distinct_non_neutral_colors neutral d = k"
    if "distinct palette" and "neutral \<notin> set palette"
  proof -
    have len': "length cols = length (map snd macro2microlist_dict)"
      using len by simp
    have "set (filter (\<lambda>col. col \<noteq> neutral) cols) = set palette"
      using len' big' small that(2) by (rule non_neutral_colors_are_palette)
    then have "card (set (filter (\<lambda>col. col \<noteq> neutral) cols)) = length palette"
      using that(1) by (simp add: distinct_card)
    then show ?thesis
      by (simp add: distinct_non_neutral_colors_def d2 length_remdups_card_conv kp)
  qed
  show ?thesis
  proof (intro exI [of _ d] conjI impI)
    show "assign_macro_colors False cmap neutral G_macro pos_macro macro2microlist_dict = Inr d"
      by (rule run')
    show "map fst d = map fst macro2microlist_dict" by (rule d1)
    show "map fst (filter (\<lambda>p. 1 < length (snd p))
                (zip (map snd d) (map snd macro2microlist_dict))) =
       map cmap (linspace01 (number_of_big_macro_nodes macro2microlist_dict))"
      using big' by (simp only: d2 palette_def k_def)
    show "\<forall>(col, ms) \<in> set (zip (map snd d) (map snd macro2microlist_dict)).
        length ms \<le> 1 \<longrightarrow> col = neutral"
      using small by (simp only: d2)
    assume "distinct (map cmap (linspace01 (number_of_big_macro_nodes macro2microlist_dict))) \<and>
      neutral \<notin> set (map cmap (linspace01 (number_of_big_macro_nodes macro2microlist_dict)))"
    then have "distinct palette" and "neutral \<notin> set palette"
      unfolding palette_def k_def by blast+
    then have "distinct_non_neutral_colors neutral d = k" by (rule count)
    then show "distinct_non_neutral_colors neutral d =
          number_of_big_macro_nodes macro2microlist_dict"
      by (simp only: k_def)
  qed
qed

theorem selective_coloring_witness:
  "distinct (map fst mixed_macro2microlist) \<and>
   pos_macro_loop scenario_pos_micro mixed_macro2microlist [] = Inr mixed_pos_macro \<and>
   assign_macro_colors False (ListedColormap Set2) (Named ''w'') scenario_G_macro
     mixed_pos_macro mixed_macro2microlist =
     Inr [(''A'', RGBA (102 / 255) (194 / 255) (165 / 255) 1), (''B'', Named ''w'')] \<and>
   distinct_non_neutral_colors (Named ''w'')
     [(''A'', RGBA (102 / 255) (194 / 255) (165 / 255) 1), (''B'', Named ''w'')] = 1 \<and>
   number_of_big_macro_nodes mixed_macro2microlist = 1"
  using selective_coloring [of mixed_macro2microlist scenario_pos_micro mixed_pos_macro
      "ListedColormap Set2" "Named ''w''" scenario_G_macro]
  by (simp add: mixed_macro2microlist_def mixed_pos_macro_def scenario_pos_micro_def
        number_of_big_macro_nodes_def assign_macro_colors_def linspace01_def
        ListedColormap_def Set2_def distinct_non_neutral_colors_def
        dict_get_def dict_set_def np_mean_axis0_def)

subsection \<open>The rescaler\<close>

text \<open>
  Claim C2. The claim asks that a degenerate input range (\<open>min_weight = max_weight\<close>)
  yields the minimum output. The guard of \<^verbatim>\<open>rescale_weight\<close> compares the output range
  instead, so with a degenerate input range and two different output bounds the
  division by zero is reached and ZeroDivisionError is raised.
\<close>

theorem rescale_degenerate_domain_raises:
  "max_size \<noteq> min_size \<Longrightarrow>
   rescale_weight weight v v min_size max_size = Inl ZeroDivisionError"
  by (simp add: rescale_weight_def)

theorem rescale_degenerate_domain_raises_witness:
  "(4::real) \<noteq> 2 \<and> rescale_weight 1 1 1 2 4 = Inl ZeroDivisionError"
  using rescale_degenerate_domain_raises [of 4 2 1 1] by simp

text \<open>
  In exact arithmetic the rescaler is linear: on a valid input range it sends the lower
  bound to \<open>min_size\<close> and the upper bound to \<open>max_size\<close>, and it is monotonically
  non-decreasing when \<open>min_size \<le> max_size\<close>.
\<close>

lemma rescale_linearity_exact:
  "min_weight < max_weight \<Longrightarrow>
   rescale_weight min_weight min_weight max_weight min_size max_size = Inr min_size \<and>
   rescale_weight max_weight min_weight max_weight min_size max_size = Inr max_size \<and>
   (min_size \<le> max_size \<longrightarrow> x \<le> y \<longrightarrow>
      (\<exists>a b. rescale_weight x min_weight max_weight min_size max_size = Inr a \<and>
             rescale_weight y min_weight max_weight min_size max_size = Inr b \<and> a \<le> b))"
  by (auto simp add: rescale_weight_def divide_right_mono mult_right_mono)

subsection \<open>The rescaler in double arithmetic\<close>

lemma round_half_even_of_int [simp]: "round_half_even (of_int k) = k"
  by (simp add: round_half_even_def)

lemma round_half_even_range:
  "\<lfloor>x\<rfloor> \<le> round_half_even x \<and> round_half_even x \<le> \<lfloor>x\<rfloor> + 1"
  by (simp add: round_half_even_def)

lemma round_half_even_mono:
  assumes "x \<le> y"
  shows "round_half_even x \<le> round_half_even y"
proof (cases "\<lfloor>x\<rfloor> = \<lfloor>y\<rfloor>")
  case True
  with assms show ?thesis
    by (auto simp add: round_half_even_def)
next
  case False
  with assms have "\<lfloor>x\<rfloor> + 1 \<le> \<lfloor>y\<rfloor>"
    using floor_mono [of x y] by linarith
  with round_half_even_range [of x] round_half_even_range [of y] show ?thesis
    by linarith
qed

lemma double_exponent_bounds:
  assumes "x \<noteq> 0"
  shows "2 powr of_int (double_exponent x) \<le> \<bar>x\<bar>"
    and "\<bar>x\<bar> < 2 powr (of_int (double_exponent x) + 1)"
proof -
  from assms have pos: "0 < \<bar>x\<bar>" by simp
  have "\<lfloor>log 2 \<bar>x\<bar>\<rfloor> = double_exponent x" by (simp add: double_exponent_def)
  with floor_log_eq_powr_iff [OF pos, of 2 "double_exponent x"]
  show "2 powr of_int (double_exponent x) \<le> \<bar>x\<bar>"
    and "\<bar>x\<bar> < 2 powr (of_int (double_exponent x) + 1)"
    by simp_all
qed

lemma double_exponent_eq:
  assumes "2 powr of_int e \<le> \<bar>x\<bar>" and "\<bar>x\<bar> < 2 powr (of_int e + 1)"
  shows "double_exponent x = e"
proof -
  from assms(1) have pos: "0 < \<bar>x\<bar>"
    using powr_gt_zero [of 2 "of_int e"] by linarith
  from floor_log_eq_powr_iff [OF pos, of 2 e] assms show ?thesis
    by (simp add: double_exponent_def)
qed

lemma double_ulp_pos: "0 < double_ulp x"
  by (simp add: double_ulp_def)

lemma round_half_even_numeral [simp]: "round_half_even (numeral k) = numeral k"
  using round_half_even_of_int [of "numeral k"] by simp

lemma double_ulp_scale:
  "double_ulp x * 2 ^ 52 = 2 powr of_int (double_exponent x)"
  "double_ulp x * 2 ^ 53 = 2 powr (of_int (double_exponent x) + 1)"
proof -
  have "(2::real) powr of_int (double_exponent x) =
      2 powr (of_int (double_exponent x - 52) + 52)" by simp
  also have "\<dots> = 2 powr of_int (double_exponent x - 52) * 2 powr 52"
    by (rule powr_add)
  finally show "double_ulp x * 2 ^ 52 = 2 powr of_int (double_exponent x)"
    by (simp add: double_ulp_def)
  have "(2::real) powr (of_int (double_exponent x) + 1) =
      2 powr (of_int (double_exponent x - 52) + 53)" by (simp add: add.commute)
  also have "\<dots> = 2 powr of_int (double_exponent x - 52) * 2 powr 53"
    by (rule powr_add)
  finally show "double_ulp x * 2 ^ 53 = 2 powr (of_int (double_exponent x) + 1)"
    by (simp add: double_ulp_def)
qed

lemma scaled_bounds:
  assumes "x \<noteq> 0"
  shows "2 ^ 52 \<le> \<bar>x\<bar> / double_ulp x" and "\<bar>x\<bar> / double_ulp x < 2 ^ 53"
proof -
  from double_exponent_bounds [OF assms]
  have "double_ulp x * 2 ^ 52 \<le> \<bar>x\<bar>" and "\<bar>x\<bar> < double_ulp x * 2 ^ 53"
    by (simp_all only: double_ulp_scale)
  then show "2 ^ 52 \<le> \<bar>x\<bar> / double_ulp x" and "\<bar>x\<bar> / double_ulp x < 2 ^ 53"
    using double_ulp_pos [of x] by (simp_all add: field_simps)
qed

lemma round_double_pos_bounds:
  assumes "0 < x"
  shows "2 powr of_int (double_exponent x) \<le> round_double x"
    and "round_double x \<le> 2 powr (of_int (double_exponent x) + 1)"
proof -
  from assms have nz: "x \<noteq> 0" by simp
  let ?n = "x / double_ulp x"
  from scaled_bounds [OF nz] assms have lo: "2 ^ 52 \<le> ?n" and hi: "?n \<le> 2 ^ 53"
    by simp_all
  from round_half_even_mono [OF lo] have a: "2 ^ 52 \<le> round_half_even ?n" by simp
  from round_half_even_mono [OF hi] have b: "round_half_even ?n \<le> 2 ^ 53" by simp
  from a have "(2 ^ 52 :: real) \<le> of_int (round_half_even ?n)"
    by (metis of_int_le_iff of_int_numeral of_int_power)
  then have "2 ^ 52 * double_ulp x \<le> of_int (round_half_even ?n) * double_ulp x"
    using double_ulp_pos [of x] by (simp add: mult_right_mono)
  then show "2 powr of_int (double_exponent x) \<le> round_double x"
    using nz by (simp add: round_double_def double_ulp_scale [symmetric] mult.commute)
  from b have "of_int (round_half_even ?n) \<le> (2 ^ 53 :: real)"
    by (metis of_int_le_iff of_int_numeral of_int_power)
  then have "of_int (round_half_even ?n) * double_ulp x \<le> 2 ^ 53 * double_ulp x"
    using double_ulp_pos [of x] by (simp add: mult_right_mono)
  then show "round_double x \<le> 2 powr (of_int (double_exponent x) + 1)"
    using nz by (simp add: round_double_def double_ulp_scale [symmetric] mult.commute)
qed

lemma round_half_even_neg_numeral [simp]: "round_half_even (- numeral k) = - numeral k"
  using round_half_even_of_int [of "- numeral k"] by simp

lemma round_double_neg_bounds:
  assumes "x < 0"
  shows "- (2 powr (of_int (double_exponent x) + 1)) \<le> round_double x"
    and "round_double x \<le> - (2 powr of_int (double_exponent x))"
proof -
  from assms have nz: "x \<noteq> 0" by simp
  let ?n = "x / double_ulp x"
  have "\<bar>x\<bar> / double_ulp x = - ?n" using assms by simp
  with scaled_bounds [OF nz] have lo: "- (2 ^ 53) \<le> ?n" and hi: "?n \<le> - (2 ^ 52)"
    by linarith+
  from round_half_even_mono [OF lo] have a: "- (2 ^ 53) \<le> round_half_even ?n" by simp
  from round_half_even_mono [OF hi] have b: "round_half_even ?n \<le> - (2 ^ 52)" by simp
  from a have a': "- (2 ^ 53 :: real) \<le> of_int (round_half_even ?n)"
    by (metis of_int_le_iff of_int_minus of_int_numeral of_int_power)
  have "- (2 ^ 53) * double_ulp x \<le> of_int (round_half_even ?n) * double_ulp x"
  proof (rule mult_right_mono)
    show "- (2 ^ 53) \<le> real_of_int (round_half_even ?n)" by (rule a')
    show "0 \<le> double_ulp x" using double_ulp_pos [of x] by simp
  qed
  then show "- (2 powr (of_int (double_exponent x) + 1)) \<le> round_double x"
    using nz by (simp add: round_double_def double_ulp_scale [symmetric] mult.commute)
  from b have b': "of_int (round_half_even ?n) \<le> - (2 ^ 52 :: real)"
    by (metis of_int_le_iff of_int_minus of_int_numeral of_int_power)
  have "of_int (round_half_even ?n) * double_ulp x \<le> - (2 ^ 52) * double_ulp x"
  proof (rule mult_right_mono)
    show "real_of_int (round_half_even ?n) \<le> - (2 ^ 52)" by (rule b')
    show "0 \<le> double_ulp x" using double_ulp_pos [of x] by simp
  qed
  then show "round_double x \<le> - (2 powr of_int (double_exponent x))"
    using nz by (simp add: round_double_def double_ulp_scale [symmetric] mult.commute)
qed

lemma round_double_zero [simp]: "round_double 0 = 0"
  by (simp add: round_double_def)

lemma round_double_pos: "0 < x \<Longrightarrow> 0 < round_double x"
  using round_double_pos_bounds(1) [of x] powr_gt_zero [of 2 "of_int (double_exponent x)"]
  by linarith

lemma round_double_neg: "x < 0 \<Longrightarrow> round_double x < 0"
  using round_double_neg_bounds(2) [of x] powr_gt_zero [of 2 "of_int (double_exponent x)"]
  by linarith

lemma round_double_eq_zero_iff: "round_double x = 0 \<longleftrightarrow> x = 0"
proof
  assume z: "round_double x = 0"
  show "x = 0"
  proof (rule ccontr)
    assume "x \<noteq> 0"
    then consider "0 < x" | "x < 0" by linarith
    then show False
    proof cases
      case 1
      from round_double_pos [OF this] z show False by simp
    next
      case 2
      from round_double_neg [OF this] z show False by simp
    qed
  qed
next
  assume "x = 0"
  then show "round_double x = 0" by simp
qed

lemma double_exponent_mono:
  assumes "0 < a" and "a \<le> b"
  shows "double_exponent a \<le> double_exponent b"
proof -
  from assms have "log 2 a \<le> log 2 b" by simp
  then have "\<lfloor>log 2 a\<rfloor> \<le> \<lfloor>log 2 b\<rfloor>" by (rule floor_mono)
  with assms show ?thesis by (simp add: double_exponent_def)
qed

lemma double_exponent_minus: "double_exponent (- x) = double_exponent x"
  by (simp add: double_exponent_def)

lemma round_double_same_exponent:
  assumes "x \<le> y" and "x \<noteq> 0" and "y \<noteq> 0" and "double_exponent x = double_exponent y"
  shows "round_double x \<le> round_double y"
proof -
  from assms(4) have u: "double_ulp x = double_ulp y" by (simp add: double_ulp_def)
  from assms(1) have "x / double_ulp y \<le> y / double_ulp y"
    using double_ulp_pos [of y] by (simp add: divide_right_mono)
  then have "round_half_even (x / double_ulp y) \<le> round_half_even (y / double_ulp y)"
    by (rule round_half_even_mono)
  then have "(of_int (round_half_even (x / double_ulp y)) :: real) \<le>
      of_int (round_half_even (y / double_ulp y))" by simp
  then have "of_int (round_half_even (x / double_ulp y)) * double_ulp y \<le>
      of_int (round_half_even (y / double_ulp y)) * double_ulp y"
    using double_ulp_pos [of y] by (simp add: mult_right_mono)
  with assms(2,3) show ?thesis by (simp add: round_double_def u)
qed

lemma powr_step: "(e :: int) < e' \<Longrightarrow> (2::real) powr (of_int e + 1) \<le> 2 powr of_int e'"
  by (rule powr_mono) simp_all

lemma round_double_mono:
  assumes "x \<le> y"
  shows "round_double x \<le> round_double y"
proof -
  consider "x < 0" "0 \<le> y" | "x = 0" "0 < y" | "x = 0" "y = 0" | "0 < x" | "y < 0"
    using assms by linarith
  then show ?thesis
  proof cases
    case 1
    then show ?thesis
      using round_double_neg [of x] round_double_pos [of y]
      by (cases "y = 0") (simp_all add: less_imp_le order.strict_implies_order[OF less_trans])
  next
    case 2
    then show ?thesis using round_double_pos [of y] by simp
  next
    case 3
    then show ?thesis by simp
  next
    case 4
    with assms have y: "0 < y" by simp
    from 4 assms have e: "double_exponent x \<le> double_exponent y"
      by (rule double_exponent_mono)
    show ?thesis
    proof (cases "double_exponent x = double_exponent y")
      case True
      with assms 4 y show ?thesis by (intro round_double_same_exponent) simp_all
    next
      case False
      with e have "double_exponent x < double_exponent y" by simp
      then have "(2::real) powr (of_int (double_exponent x) + 1) \<le>
          2 powr of_int (double_exponent y)" by (rule powr_step)
      with round_double_pos_bounds(2) [OF 4] round_double_pos_bounds(1) [OF y]
      show ?thesis by linarith
    qed
  next
    case 5
    with assms have x: "x < 0" by simp
    from 5 assms have "double_exponent (- y) \<le> double_exponent (- x)"
      by (intro double_exponent_mono) simp_all
    then have e: "double_exponent y \<le> double_exponent x"
      by (simp only: double_exponent_minus)
    show ?thesis
    proof (cases "double_exponent x = double_exponent y")
      case True
      with assms 5 x show ?thesis by (intro round_double_same_exponent) simp_all
    next
      case False
      with e have "double_exponent y < double_exponent x" by simp
      then have "(2::real) powr (of_int (double_exponent y) + 1) \<le>
          2 powr of_int (double_exponent x)" by (rule powr_step)
      with round_double_neg_bounds(2) [OF x] round_double_neg_bounds(1) [OF 5]
      show ?thesis by linarith
    qed
  qed
qed

lemma round_double_eval:
  assumes "2 powr of_int e \<le> \<bar>x\<bar>" and "\<bar>x\<bar> < 2 powr (of_int e + 1)"
  shows "round_double x =
    of_int (round_half_even (x / 2 powr of_int (e - 52))) * 2 powr of_int (e - 52)"
proof -
  from assms have e: "double_exponent x = e" by (rule double_exponent_eq)
  from assms(1) have "x \<noteq> 0"
    using powr_gt_zero [of 2 "of_int e"] by auto
  then show ?thesis by (simp add: round_double_def double_ulp_def e)
qed

lemma round_double_1 [simp]: "round_double 1 = 1"
  using round_double_eval [of 0 1] by (simp add: powr_neg_numeral)

lemma round_double_2: "round_double 2 = 2"
  using round_double_eval [of 1 2] by (simp add: powr_neg_numeral)

lemma round_double_powr: "round_double (2 powr of_int k) = 2 powr of_int k"
proof -
  have "(2::real) powr of_int k = 2 powr (52 + of_int (k - 52))" by simp
  also have "\<dots> = 2 powr 52 * 2 powr of_int (k - 52)" by (rule powr_add)
  finally have split: "(2::real) powr of_int k = 2 ^ 52 * 2 powr of_int (k - 52)" by simp
  have "\<bar>(2::real) powr of_int k\<bar> < 2 powr (of_int k + 1)" by simp
  with round_double_eval [of k "2 powr of_int k"]
  have "round_double (2 powr of_int k) =
      of_int (round_half_even (2 powr of_int k / 2 powr of_int (k - 52))) * 2 powr of_int (k - 52)"
    by simp
  also have "2 powr of_int k / 2 powr of_int (k - 52) = (2 ^ 52 :: real)"
    by (subst split) simp
  finally show ?thesis by (simp add: split)
qed

lemma abs_round_double_le:
  assumes "\<bar>v\<bar> \<le> 2 powr of_int k"
  shows "\<bar>round_double v\<bar> \<le> 2 powr of_int k"
proof -
  from assms have "v \<le> 2 powr of_int k" and "- (2 powr of_int k) \<le> v" by linarith+
  from round_double_mono [OF this(1)] have up: "round_double v \<le> 2 powr of_int k"
    by (simp only: round_double_powr)
  have neg: "round_double (- (2 powr of_int k)) = - (2 powr of_int k)"
  proof -
    have b: "\<bar>- ((2::real) powr of_int k)\<bar> < 2 powr (of_int k + 1)" by simp
    have a: "(2::real) powr of_int k \<le> \<bar>- (2 powr of_int k)\<bar>" by simp
    have "(2::real) powr of_int k = 2 powr (52 + of_int (k - 52))" by simp
    also have "\<dots> = 2 powr 52 * 2 powr of_int (k - 52)" by (rule powr_add)
    finally have split: "(2::real) powr of_int k = 2 ^ 52 * 2 powr of_int (k - 52)" by simp
    have "- ((2::real) powr of_int k) / 2 powr of_int (k - 52) = - (2 ^ 52)"
      by (subst split) simp
    with round_double_eval [OF a b] show ?thesis by (simp add: split)
  qed
  from round_double_mono [OF \<open>- (2 powr of_int k) \<le> v\<close>]
  have "- (2 powr of_int k) \<le> round_double v" by (simp only: neg)
  with up show ?thesis by linarith
qed

lemma to_double_zero [simp]: "to_double 0 = Finite 0"
  by (simp add: to_double_def)

lemma to_double_Finite: "to_double v = Finite a \<Longrightarrow> a = round_double v"
  by (auto simp add: to_double_def split: if_splits)

lemma to_double_eval:
  assumes "2 powr of_int e \<le> \<bar>v\<bar>" and "\<bar>v\<bar> < 2 powr (of_int e + 1)"
    and "- 1022 \<le> e" and "e < 1023"
  shows "to_double v =
    Finite (of_int (round_half_even (v / 2 powr of_int (e - 52))) * 2 powr of_int (e - 52))"
proof -
  from assms(1) have nz: "v \<noteq> 0"
    using powr_gt_zero [of 2 "of_int e"] by auto
  have "(2::real) powr (- 1022) \<le> 2 powr of_int e"
    using assms(3) by (intro powr_mono) simp_all
  with assms(1) have low: "2 powr (- 1022) \<le> \<bar>v\<bar>" by linarith
  from assms(2) have "\<bar>v\<bar> \<le> 2 powr of_int (e + 1)" by simp
  then have "\<bar>round_double v\<bar> \<le> 2 powr of_int (e + 1)" by (rule abs_round_double_le)
  also have "(2::real) powr of_int (e + 1) \<le> 2 powr 1023"
    using assms(4) by (intro powr_mono) simp_all
  also have "(2::real) powr 1023 < 2 powr 1024" by (intro powr_less_mono) simp_all
  finally have high: "\<bar>round_double v\<bar> < 2 powr 1024" .
  from nz low high have "to_double v = Finite (round_double v)"
    by (simp add: to_double_def)
  with round_double_eval [OF assms(1,2)] show ?thesis by simp
qed

lemma with_double_Finite [simp]: "with_double (Finite v) f = f v"
  by (simp add: with_double_def)

lemma with_double_Out_of_range [simp]: "with_double Out_of_range f = Inr Out_of_range"
  by (simp add: with_double_def)

lemma with_double_eq_Finite:
  "with_double r f = Inr (Finite a) \<longleftrightarrow> (\<exists>v. r = Finite v \<and> f v = Inr (Finite a))"
  by (cases r) simp_all

lemma with_double_eq_Inl:
  "with_double r f = Inl e \<longleftrightarrow> (\<exists>v. r = Finite v \<and> f v = Inl e)"
  by (cases r) simp_all

lemma double_values:
  "to_double 1 = Finite 1"
  "to_double 2 = Finite 2"
  "to_double 3 = Finite 3"
  "to_double 4 = Finite 4"
  "to_double (1 / 2) = Finite (1 / 2)"
  using to_double_eval [of 0 1] to_double_eval [of 1 2] to_double_eval [of 1 3]
    to_double_eval [of 2 4] to_double_eval [of "- 1" "1 / 2"]
  by (simp_all add: powr_neg_numeral)

lemma double_of_fifth:
  "to_double (1 / 5) = Finite (3602879701896397 / 18014398509481984)"
  using to_double_eval [of "- 3" "1 / 5"]
  by (simp add: powr_neg_numeral round_half_even_def)

lemma double_of_nine_tenths:
  "to_double (9 / 10) = Finite (8106479329266893 / 9007199254740992)"
  using to_double_eval [of "- 1" "9 / 10"]
  by (simp add: powr_neg_numeral round_half_even_def)

lemma double_steps:
  "to_double (8106479329266893 / 9007199254740992 - 3602879701896397 / 18014398509481984) =
     Finite (6305039478318694 / 9007199254740992)"
  "to_double (1 * (6305039478318694 / 9007199254740992)) =
     Finite (6305039478318694 / 9007199254740992)"
  "to_double (3602879701896397 / 18014398509481984 + 6305039478318694 / 9007199254740992) =
     Finite (8106479329266892 / 9007199254740992)"
  using to_double_eval [of "- 1" "12610078956637389 / 18014398509481984"]
    to_double_eval [of "- 1" "6305039478318694 / 9007199254740992"]
    to_double_eval [of "- 1" "16212958658533785 / 18014398509481984"]
  by (simp_all add: powr_neg_numeral round_half_even_def)

text \<open>
  Claim C6, as stated, fails in the arithmetic of the code: the upper bound of a valid
  input range is not always sent to \<open>max_output\<close>. For the input range (1, 3) and the
  output range (0.2, 0.9), the doubles nearest to 1/5 and 9/10, the difference of the
  output bounds rounds down, and \<^verbatim>\<open>rescale_weight(3)\<close> is the double below
  \<open>max_output\<close> (0.8999999999999999).
\<close>

theorem rescale_max_endpoint_counterexample:
  "is_double (3602879701896397 / 18014398509481984) \<and>
   is_double (8106479329266893 / 9007199254740992) \<and>
   rescale_weight_double 3 1 3 (3602879701896397 / 18014398509481984)
      (8106479329266893 / 9007199254740992) =
     Inr (Finite (8106479329266892 / 9007199254740992)) \<and>
   rescale_weight_double 3 1 3 (3602879701896397 / 18014398509481984)
      (8106479329266893 / 9007199254740992) \<noteq>
     Inr (Finite (8106479329266893 / 9007199254740992))"
proof -
  have lo: "is_double (3602879701896397 / 18014398509481984)"
    unfolding is_double_def
    using to_double_eval [of "- 3" "3602879701896397 / 18014398509481984"]
    by (simp add: powr_neg_numeral round_half_even_def)
  have hi: "is_double (8106479329266893 / 9007199254740992)"
    unfolding is_double_def
    using to_double_eval [of "- 1" "8106479329266893 / 9007199254740992"]
    by (simp add: powr_neg_numeral round_half_even_def)
  have run: "rescale_weight_double 3 1 3 (3602879701896397 / 18014398509481984)
      (8106479329266893 / 9007199254740992) =
     Inr (Finite (8106479329266892 / 9007199254740992))"
    using double_steps
    by (simp add: rescale_weight_double_def double_values)
  from lo hi run show ?thesis by simp
qed

lemma rescale_weight_double_Finite:
  assumes "rescale_weight_double weight min_weight max_weight min_size max_size = Inr (Finite a)"
    and "max_size \<noteq> min_size"
  shows "\<exists>n d q s p. to_double (weight - min_weight) = Finite n \<and>
           to_double (max_weight - min_weight) = Finite d \<and> d \<noteq> 0 \<and>
           to_double (n / d) = Finite q \<and>
           to_double (max_size - min_size) = Finite s \<and>
           to_double (q * s) = Finite p \<and>
           to_double (min_size + p) = Finite a"
  using assms
  by (auto simp add: rescale_weight_double_def with_double_eq_Finite split: if_splits)

lemma rescale_weight_double_mono:
  assumes "min_weight < max_weight" and "min_size \<le> max_size" and "x \<le> y"
    and "rescale_weight_double x min_weight max_weight min_size max_size = Inr (Finite a)"
    and "rescale_weight_double y min_weight max_weight min_size max_size = Inr (Finite b)"
  shows "a \<le> b"
proof (cases "max_size = min_size")
  case True
  with assms(4,5) show ?thesis by (simp add: rescale_weight_double_def)
next
  case False
  from rescale_weight_double_Finite [OF assms(4) False]
  obtain n d q s p where n: "to_double (x - min_weight) = Finite n"
    and d: "to_double (max_weight - min_weight) = Finite d"
    and q: "to_double (n / d) = Finite q"
    and s: "to_double (max_size - min_size) = Finite s"
    and p: "to_double (q * s) = Finite p"
    and a: "to_double (min_size + p) = Finite a"
    by blast
  from rescale_weight_double_Finite [OF assms(5) False]
  obtain n' d' q' s' p' where n': "to_double (y - min_weight) = Finite n'"
    and d': "to_double (max_weight - min_weight) = Finite d'"
    and q': "to_double (n' / d') = Finite q'"
    and s': "to_double (max_size - min_size) = Finite s'"
    and p': "to_double (q' * s') = Finite p'"
    and b: "to_double (min_size + p') = Finite b"
    by blast
  from d d' have dd: "d' = d" by simp
  from s s' have ss: "s' = s" by simp
  have d_pos: "0 < d"
    using to_double_Finite [OF d] round_double_pos [of "max_weight - min_weight"] assms(1)
    by simp
  have s_nonneg: "0 \<le> s"
    using to_double_Finite [OF s] round_double_mono [of 0 "max_size - min_size"] assms(2)
    by simp
  have "n \<le> n'"
    using to_double_Finite [OF n] to_double_Finite [OF n']
      round_double_mono [of "x - min_weight" "y - min_weight"] assms(3)
    by simp
  then have "n / d \<le> n' / d"
    using d_pos by (simp add: divide_right_mono)
  then have "q \<le> q'"
    using to_double_Finite [OF q] to_double_Finite [OF q' [unfolded dd]]
      round_double_mono [of "n / d" "n' / d"]
    by simp
  then have "q * s \<le> q' * s"
    using s_nonneg by (rule mult_right_mono)
  then have "p \<le> p'"
    using to_double_Finite [OF p] to_double_Finite [OF p' [unfolded ss]]
      round_double_mono [of "q * s" "q' * s"]
    by simp
  then have "min_size + p \<le> min_size + p'" by simp
  then show "a \<le> b"
    using to_double_Finite [OF a] to_double_Finite [OF b]
      round_double_mono [of "min_size + p" "min_size + p'"]
    by simp
qed

lemma rescale_weight_double_no_raise:
  assumes "min_weight < max_weight"
  shows "rescale_weight_double weight min_weight max_weight min_size max_size \<noteq> Inl e"
proof
  assume r: "rescale_weight_double weight min_weight max_weight min_size max_size = Inl e"
  then have "max_size \<noteq> min_size"
    by (auto simp add: rescale_weight_double_def)
  with r obtain d where d: "to_double (max_weight - min_weight) = Finite d" and z: "d = 0"
    by (auto simp add: rescale_weight_double_def with_double_eq_Inl split: if_splits)
  from to_double_Finite [OF d] round_double_pos [of "max_weight - min_weight"] assms z
  show False by simp
qed

text \<open>
  Claim C6, amended. In double arithmetic, on Python floats, for a valid input range
  (\<open>min_weight < max_weight\<close>) whose width is a normal double, and output bounds that are
  doubles with a difference that is a normal double: the lower bound of the input range
  is sent to \<open>min_size\<close> exactly; the upper bound is sent to \<open>max_size\<close> exactly whenever
  the difference \<open>max_size - min_size\<close> is computed without rounding (as for the integer
  sizes of the defaults); no division by zero occurs; and when \<open>min_size \<le> max_size\<close>
  the rescaler is monotonically non-decreasing in its value argument wherever its
  results are finite.
\<close>

theorem rescale_double_linearity:
  assumes "min_weight < max_weight"
    and "is_double min_size" and "is_double max_size"
    and "to_double (max_weight - min_weight) \<noteq> Out_of_range"
    and "to_double (max_size - min_size) \<noteq> Out_of_range"
  shows "rescale_weight_double min_weight min_weight max_weight min_size max_size =
           Inr (Finite min_size) \<and>
         (round_double (max_size - min_size) = max_size - min_size \<longrightarrow>
            rescale_weight_double max_weight min_weight max_weight min_size max_size =
              Inr (Finite max_size)) \<and>
         (\<forall>x. rescale_weight_double x min_weight max_weight min_size max_size \<noteq>
            Inl ZeroDivisionError) \<and>
         (min_size \<le> max_size \<longrightarrow>
            (\<forall>x y a b. x \<le> y \<longrightarrow>
               rescale_weight_double x min_weight max_weight min_size max_size = Inr (Finite a) \<longrightarrow>
               rescale_weight_double y min_weight max_weight min_size max_size = Inr (Finite b) \<longrightarrow>
               a \<le> b))"
proof -
  from assms(4) obtain d where d: "to_double (max_weight - min_weight) = Finite d"
    by (cases "to_double (max_weight - min_weight)") simp_all
  from assms(5) obtain s where s: "to_double (max_size - min_size) = Finite s"
    by (cases "to_double (max_size - min_size)") simp_all
  have d_pos: "0 < d"
    using to_double_Finite [OF d] round_double_pos [of "max_weight - min_weight"] assms(1)
    by simp
  have lo: "to_double min_size = Finite min_size" and hi: "to_double max_size = Finite max_size"
    using assms(2,3) by (simp_all add: is_double_def)
  have one: "to_double 1 = Finite 1" by (rule double_values)
  have first: "rescale_weight_double min_weight min_weight max_weight min_size max_size =
           Inr (Finite min_size)"
    using d d_pos s lo by (simp add: rescale_weight_double_def)
  have second: "rescale_weight_double max_weight min_weight max_weight min_size max_size =
              Inr (Finite max_size)"
    if exact: "round_double (max_size - min_size) = max_size - min_size"
  proof -
    from to_double_Finite [OF s] exact have s_eq: "s = max_size - min_size" by simp
    with s have "to_double (1 * s) = Finite s" by simp
    moreover have "min_size + s = max_size" by (simp add: s_eq)
    ultimately show ?thesis
      using d d_pos s hi one by (simp add: rescale_weight_double_def)
  qed
  have third: "\<forall>x. rescale_weight_double x min_weight max_weight min_size max_size \<noteq>
      Inl ZeroDivisionError"
    using rescale_weight_double_no_raise [OF assms(1)] by blast
  have fourth: "\<forall>x y a b. x \<le> y \<longrightarrow>
               rescale_weight_double x min_weight max_weight min_size max_size = Inr (Finite a) \<longrightarrow>
               rescale_weight_double y min_weight max_weight min_size max_size = Inr (Finite b) \<longrightarrow>
               a \<le> b"
    if "min_size \<le> max_size"
    using rescale_weight_double_mono [OF assms(1) that] by blast
  from first second third fourth show ?thesis by blast
qed

theorem rescale_double_linearity_witness:
  "(1::real) < 3 \<and> is_double 2 \<and> is_double 4 \<and>
   to_double (3 - 1) \<noteq> Out_of_range \<and> to_double (4 - 2) \<noteq> Out_of_range \<and>
   rescale_weight_double 1 1 3 2 4 = Inr (Finite 2) \<and>
   round_double (4 - 2) = 4 - 2 \<and>
   rescale_weight_double 3 1 3 2 4 = Inr (Finite 4) \<and>
   rescale_weight_double 2 1 3 2 4 = Inr (Finite 3) \<and> (2::real) \<le> 3"
proof -
  have h1: "(1::real) < 3" by simp
  have h2: "is_double 2" and h3: "is_double 4"
    by (simp_all add: is_double_def double_values)
  have h4: "to_double (3 - 1) \<noteq> Out_of_range" and h5: "to_double (4 - 2) \<noteq> Out_of_range"
    by (simp_all add: double_values)
  have exact: "round_double (4 - 2) = 4 - 2"
    using round_double_2 by simp
  have mid: "rescale_weight_double 2 1 3 2 4 = Inr (Finite 3)"
    by (simp add: rescale_weight_double_def double_values)
  from rescale_double_linearity [OF h1 h2 h3 h4 h5] exact mid h1 h2 h3 h4 h5
  show ?thesis by simp
qed

text \<open>
  Where the two models meet: a degenerate input range raises in double arithmetic as in
  exact arithmetic, and the node size of the scenario, with the default sizes, is
  computed without any rounding.
\<close>

lemma rescale_weight_double_degenerate:
  "max_size \<noteq> min_size \<Longrightarrow> to_double (weight - v) = Finite n \<Longrightarrow>
   rescale_weight_double weight v v min_size max_size = Inl ZeroDivisionError"
  by (simp add: rescale_weight_double_def)

lemma rescale_weight_double_scenario:
  "rescale_weight_double 2 1 2 60 300 = Inr (Finite 300)"
  using to_double_eval [of 7 240] to_double_eval [of 8 300]
  by (simp add: rescale_weight_double_def double_values powr_neg_numeral)

text \<open>
  The division by zero on whole runs. A coarse graph of singletons has its largest
  member count equal to the fixed lower bound 1 of the node-size domain, so the node
  sizes of line 141 raise; and in the end-to-end scenario the one coarse edge makes the
  range of the coarse edge weights degenerate, so the routine, completed with the two
  helpers, raises at line 169.
\<close>

lemma singletons_node_sizes_raise:
  "macro_node_sizes singletons_macro2microlist scenario_G_macro 60 300 = Inl ZeroDivisionError"
  by (simp add: macro_node_sizes_def singletons_macro2microlist_def scenario_G_macro_def
        py_max_def dict_get_def rescale_weight_def)

lemma resolve_completed:
  "resolve completed_globals ''get_micro2macro_dict_from_pd_df'' =
     Inr (Forward_builder get_micro2macro_dict_from_pd_df)"
  "resolve completed_globals ''get_macro2microlist_dict_from_micro2macro_dict'' =
     Inr (Inverse_builder get_macro2microlist_dict_from_micro2macro_dict)"
  by (simp_all add: resolve_def completed_globals_def module_globals_def)

lemma call_builders_completed:
  "call_forward_builder completed_globals mapping =
     Inr (get_micro2macro_dict_from_pd_df mapping)"
  "call_inverse_builder completed_globals d =
     Inr (get_macro2microlist_dict_from_micro2macro_dict d)"
  by (simp_all add: call_forward_builder_def call_inverse_builder_def resolve_completed)

lemma scenario_run_raises:
  "visualize_micro_macro completed_globals example_library scenario_G_micro scenario_mapping
     scenario_G_macro default_options = Inl ZeroDivisionError"
proof -
  have pos: "pos_macro_loop (line_layout scenario_G_micro) scenario_macro2microlist [] =
      Inr [(''A'', Centroid (3 / 2) 0), (''B'', Centroid (7 / 2) 0)]"
    by (simp add: line_layout_def scenario_G_micro_def scenario_macro2microlist_def
          dict_get_def dict_set_def np_mean_axis0_def)
  have colors: "assign_macro_colors True (ListedColormap Set2) (Named ''w'') scenario_G_macro
      [(''A'', Centroid (3 / 2) 0), (''B'', Centroid (7 / 2) 0)] scenario_macro2microlist =
      Inr [(''A'', RGBA (102 / 255) (194 / 255) (165 / 255) 1),
           (''B'', RGBA (179 / 255) (179 / 255) (179 / 255) 1)]"
    by (simp add: assign_macro_colors_def scenario_G_macro_def linspace01_def
          ListedColormap_def Set2_def dict_set_def)
  have micro: "\<exists>d. assign_micro_colors scenario_mapping
      [(''A'', RGBA (102 / 255) (194 / 255) (165 / 255) 1),
       (''B'', RGBA (179 / 255) (179 / 255) (179 / 255) 1)]
      (line_layout scenario_G_micro) = Inr d \<and>
      (\<exists>cs. lookup_all d (nodes scenario_G_micro) = Inr cs)"
    by (simp add: assign_micro_colors_def scenario_mapping_def line_layout_def
          scenario_G_micro_def dict_get_def dict_set_def)
  have micro_edges: "\<exists>ws. and_then (weight_scan (edges scenario_G_micro) 1000000000 (- 1000000000))
      (\<lambda>(a, b). edge_widths (edges scenario_G_micro) a b 2 4) = Inr ws"
    by (simp add: scenario_G_micro_def rescale_weight_def)
  have sizes: "macro_node_sizes scenario_macro2microlist scenario_G_macro 60 300 = Inr [300, 300]"
    by (simp add: macro_node_sizes_def scenario_macro2microlist_def scenario_G_macro_def
          py_max_def dict_get_def rescale_weight_def)
  have macro_edges: "and_then (weight_scan (edges scenario_G_macro) 1000000000 (- 1000000000))
      (\<lambda>(a, b). and_then (edge_widths (edges scenario_G_macro) a b 2 4) f) =
      Inl ZeroDivisionError" for f :: "(string \<times> string \<times> real) list \<Rightarrow> error + 'z"
    by (simp add: scenario_G_macro_def rescale_weight_def)
  from micro obtain d cs where d: "assign_micro_colors scenario_mapping
      [(''A'', RGBA (102 / 255) (194 / 255) (165 / 255) 1),
       (''B'', RGBA (179 / 255) (179 / 255) (179 / 255) 1)]
      (line_layout scenario_G_micro) = Inr d"
    and cs: "lookup_all d (nodes scenario_G_micro) = Inr cs" by blast
  from micro_edges obtain ws where ws:
    "and_then (weight_scan (edges scenario_G_micro) 1000000000 (- 1000000000))
      (\<lambda>(a, b). edge_widths (edges scenario_G_micro) a b 2 4) = Inr ws" by blast
  then obtain a b where ab: "weight_scan (edges scenario_G_micro) 1000000000 (- 1000000000) = Inr (a, b)"
    and w: "edge_widths (edges scenario_G_micro) a b 2 4 = Inr ws"
    by (auto simp add: and_then_eq_Inr)
  have lookup: "\<exists>mc. lookup_all [(''A'', RGBA (102 / 255) (194 / 255) (165 / 255) 1),
       (''B'', RGBA (179 / 255) (179 / 255) (179 / 255) 1)] (nodes scenario_G_macro) = Inr mc"
    by (simp add: scenario_G_macro_def dict_get_def)
  then obtain mc where mc: "lookup_all [(''A'', RGBA (102 / 255) (194 / 255) (165 / 255) 1),
       (''B'', RGBA (179 / 255) (179 / 255) (179 / 255) 1)] (nodes scenario_G_macro) = Inr mc"
    by blast
  show ?thesis
    by (simp add: visualize_micro_macro_def call_builders_completed scenario_forward
          scenario_inverse [unfolded scenario_macro2microlist_def [symmetric]]
          example_library_def default_options_def pos colors d [simplified] cs ab w sizes
          mc [simplified] macro_edges)
qed

subsection \<open>The node sizes of the scenario\<close>



subsection \<open>Empty graphs\<close>

lemma empty_scans:
  "weight_scan [] min_weight max_weight = Inr (min_weight, max_weight)"
  "edge_widths [] min_weight max_weight min_size max_size = Inr []"
  by simp_all

lemma empty_member_count_raises:
  "macro_node_sizes [] G_macro min_size max_size = Inl ValueError"
  by (simp add: macro_node_sizes_def py_max_def)

text \<open>
  Claim C9. The claim asks that graphs with no node are drawn as empty panels without a
  crash. The two scans of the edge weights do pass over the empty edge lists, but the
  maximum member count of line 125 is the builtin \<^verbatim>\<open>max\<close> of an empty list: the routine,
  completed with the two helpers, raises ValueError there, after the fine panel and
  before the coarse one. (Hypotheses: the layout of the empty graph is empty and the
  colormap is registered.)
\<close>

theorem empty_graph_raises_ValueError:
  assumes "spring_layout lib empty_graph = []"
    and "colormaps lib (node_cmap opts) = Some cmap"
  shows "visualize_micro_macro completed_globals lib empty_graph [] empty_graph opts =
           Inl ValueError"
  using assms
  by (simp add: visualize_micro_macro_def call_builders_completed
        get_micro2macro_dict_from_pd_df_def get_macro2microlist_dict_from_micro2macro_dict_def
        assign_macro_colors_def assign_micro_colors_def linspace01_def
        number_of_big_macro_nodes_def empty_graph_def empty_member_count_raises)

theorem empty_graph_raises_ValueError_witness:
  "spring_layout example_library empty_graph = [] \<and>
   colormaps example_library (node_cmap default_options) = Some (ListedColormap Set2) \<and>
   visualize_micro_macro (completed_globals :: (nat, string) namespace) example_library
     empty_graph [] empty_graph default_options = Inl ValueError"
  using empty_graph_raises_ValueError [of example_library default_options "ListedColormap Set2"]
  by (simp add: example_library_def line_layout_def empty_graph_def default_options_def)

end
